theory Spec2Isabelle
  imports Complex_Main "HOL-Library.List_Lexorder" "HOL-Library.Char_ord" "HOL-Library.Multiset"
begin

section \<open>Robot state store and phase controller (Pacer/robot.h)\<close>

subsection \<open>Units, phases and errors\<close>

text \<open>
  The enum \<^verbatim>\<open>unit_e\<close> of robot.h, in the order of its integer values 0..12. The
  \<^verbatim>\<open>default:\<close> branch of \<^verbatim>\<open>check_phase\<close> is only reached by an integer outside
  the enum, which this type excludes.
\<close>

datatype unit_e =
    misc_sensor | position | velocity | acceleration | load
  | misc_planner | position_goal | velocity_goal | acceleration_goal
  | misc_controller | load_goal | initialization | clean_up

datatype ControllerPhase =
  INITIALIZATION | PERCEPTION | PLANNING | CONTROL | WAITING | INCREMENT

text \<open>
  Every failure of robot.h is a \<^verbatim>\<open>std::runtime_error\<close> that differs by its message;
  one constructor per kind of message. \<open>InvalidIndex\<close> stands for an element access
  outside a vector or matrix, \<open>Missize\<close> for a vector or matrix operation of the
  linear-algebra library on operands whose sizes do not fit.
\<close>

datatype error =
    PhaseViolation
  | IncrementWaiting
  | InvalidPhase
  | DOFMismatch
  | KeyNotFound
  | TypeMismatch
  | InvalidIndex
  | Missize

subsection \<open>Stored data\<close>

text \<open>
  \<^verbatim>\<open>Ravelin::VectorNd\<close> and \<^verbatim>\<open>std::vector<double>\<close> are lists over the element type
  \<open>'a\<close>; the store only copies elements and creates zeros, so the element type is left
  open. \<^verbatim>\<open>contact_t\<close> is the struct of robot.h; a \<^verbatim>\<open>Vector3d\<close> is a triple.
\<close>

record 'a contact_t =
  id_c :: string
  point :: "'a \<times> 'a \<times> 'a"
  normal :: "'a \<times> 'a \<times> 'a"
  tangent :: "'a \<times> 'a \<times> 'a"
  impulse :: "'a \<times> 'a \<times> 'a"
  mu_coulomb :: 'a
  mu_viscous :: 'a
  restitution :: 'a
  compliant :: bool

text \<open>
  A \<^verbatim>\<open>boost::any\<close> of the generic data map: the stored value together with its dynamic
  type, over the types the controller exchanges.
\<close>

datatype 'a any = AnyDouble 'a | AnyVector "'a list" | AnyString string | AnyBool bool | AnyInt int

datatype any_type = TDouble | TVector | TString | TBool | TInt

fun type_of_any :: "'a any \<Rightarrow> any_type" where
  "type_of_any (AnyDouble _) = TDouble"
| "type_of_any (AnyVector _) = TVector"
| "type_of_any (AnyString _) = TString"
| "type_of_any (AnyBool _) = TBool"
| "type_of_any (AnyInt _) = TInt"

text \<open>
  The members of \<^verbatim>\<open>class Robot\<close> that the modelled operations touch. The maps that the
  code only indexes are partial functions; \<^verbatim>\<open>_state[u]\<close>, which
  \<^verbatim>\<open>get_joint_generalized_value\<close> iterates, is an association list in the iteration order
  of \<^verbatim>\<open>std::map\<close> (increasing keys).
\<close>

record 'a Robot =
  controller_phase :: ControllerPhase
  data_map :: "string \<rightharpoonup> 'a any"
  id_contacts_map :: "string \<rightharpoonup> 'a contact_t list"
  state :: "unit_e \<rightharpoonup> (string \<times> 'a list) list"
  id_dof_coord_map :: "string \<rightharpoonup> int list"
  link_ids :: "string list"
  joint_ids :: "string list"
  NUM_JOINT_DOFS :: nat

subsection \<open>\<^verbatim>\<open>std::map\<close> with iteration order\<close>

text \<open>Insert-or-assign into a key-ordered association list.\<close>

fun std_map_assign :: "'k::linorder \<Rightarrow> 'v \<Rightarrow> ('k \<times> 'v) list \<Rightarrow> ('k \<times> 'v) list" where
  "std_map_assign k v [] = [(k, v)]"
| "std_map_assign k v ((k', v') # m) =
     (if k < k' then (k, v) # (k', v') # m
      else if k = k' then (k, v) # m
      else (k', v') # std_map_assign k v m)"

text \<open>
  \<^verbatim>\<open>operator[]\<close>: the value under the key, after inserting the default value when the
  key is absent; returns the value and the map.
\<close>

definition std_map_at :: "'k::linorder \<Rightarrow> 'v \<Rightarrow> ('k \<times> 'v) list \<Rightarrow> 'v \<times> ('k \<times> 'v) list" where
  "std_map_at k dflt m =
     (case map_of m k of
        Some v \<Rightarrow> (v, m)
      | None \<Rightarrow> (dflt, std_map_assign k dflt m))"

text \<open>The same operator on a map that is never iterated.\<close>

definition map_at :: "'k \<Rightarrow> 'v \<Rightarrow> ('k \<rightharpoonup> 'v) \<Rightarrow> 'v \<times> ('k \<rightharpoonup> 'v)" where
  "map_at k dflt m =
     (case m k of
        Some v \<Rightarrow> (v, m)
      | None \<Rightarrow> (dflt, m(k \<mapsto> dflt)))"

subsection \<open>Phase controller\<close>

text \<open>The constructor \<^verbatim>\<open>Robot()\<close> starts in INITIALIZATION.\<close>

definition reset_phase :: "'a Robot \<Rightarrow> 'a Robot" where
  "reset_phase r = r\<lparr>controller_phase := PERCEPTION\<rparr>"

definition increment_phase :: "ControllerPhase \<Rightarrow> 'a Robot \<Rightarrow> error + 'a Robot" where
  "increment_phase phase r =
     (if phase = INCREMENT then
        (case controller_phase r of
           INITIALIZATION \<Rightarrow> Inr (r\<lparr>controller_phase := PERCEPTION\<rparr>)
         | WAITING \<Rightarrow> Inl IncrementWaiting
         | PERCEPTION \<Rightarrow> Inr (r\<lparr>controller_phase := PLANNING\<rparr>)
         | PLANNING \<Rightarrow> Inr (r\<lparr>controller_phase := CONTROL\<rparr>)
         | CONTROL \<Rightarrow> Inr (r\<lparr>controller_phase := WAITING\<rparr>)
         | INCREMENT \<Rightarrow> Inl InvalidPhase)
      else Inr (r\<lparr>controller_phase := phase\<rparr>))"

text \<open>The four groups of \<^verbatim>\<open>case\<close> labels of \<^verbatim>\<open>check_phase\<close> that share a body.\<close>

definition check_phase_sensor :: "'a Robot \<Rightarrow> error + 'a Robot" where
  "check_phase_sensor r =
     (if controller_phase r \<noteq> PERCEPTION \<and> controller_phase r \<noteq> INITIALIZATION
         \<and> controller_phase r \<noteq> WAITING
      then Inl PhaseViolation else Inr r)"

definition check_phase_planner :: "'a Robot \<Rightarrow> error + 'a Robot" where
  "check_phase_planner r =
     (if controller_phase r \<noteq> PLANNING \<and> controller_phase r \<noteq> INITIALIZATION
         \<and> controller_phase r \<noteq> WAITING
      then (if controller_phase r = PERCEPTION then increment_phase PLANNING r
            else Inl PhaseViolation)
      else Inr r)"

definition check_phase_controller :: "'a Robot \<Rightarrow> error + 'a Robot" where
  "check_phase_controller r =
     (if controller_phase r \<noteq> CONTROL \<and> controller_phase r \<noteq> INITIALIZATION
         \<and> controller_phase r \<noteq> WAITING
      then (if controller_phase r = PLANNING then increment_phase CONTROL r
            else if controller_phase r = PERCEPTION then increment_phase CONTROL r
            else Inl PhaseViolation)
      else Inr r)"

definition check_phase :: "unit_e \<Rightarrow> 'a Robot \<Rightarrow> error + 'a Robot" where
  "check_phase u r =
     (case u of
        initialization \<Rightarrow>
          (if controller_phase r \<noteq> INITIALIZATION \<and> controller_phase r \<noteq> WAITING
           then Inl PhaseViolation else Inr r)
      | misc_sensor \<Rightarrow> check_phase_sensor r
      | position \<Rightarrow> check_phase_sensor r
      | velocity \<Rightarrow> check_phase_sensor r
      | acceleration \<Rightarrow> check_phase_sensor r
      | load \<Rightarrow> check_phase_sensor r
      | misc_planner \<Rightarrow> check_phase_planner r
      | position_goal \<Rightarrow> check_phase_planner r
      | velocity_goal \<Rightarrow> check_phase_planner r
      | acceleration_goal \<Rightarrow> check_phase_planner r
      | misc_controller \<Rightarrow> check_phase_controller r
      | load_goal \<Rightarrow> check_phase_controller r
      | clean_up \<Rightarrow>
          (if controller_phase r \<noteq> WAITING \<and> controller_phase r \<noteq> INITIALIZATION
           then Inl PhaseViolation else Inr r))"

subsection \<open>Joint values\<close>

text \<open>
  \<^verbatim>\<open>_state[u][id]\<close> as an expression: both \<^verbatim>\<open>operator[]\<close> insert a default entry
  (an empty inner map, an empty vector) when the key is missing.
\<close>

definition state_ref :: "unit_e \<Rightarrow> string \<Rightarrow> 'a Robot \<Rightarrow> 'a list \<times> 'a Robot" where
  "state_ref u i r =
     (let (inner, outer) = map_at u [] (state r);
          (v, inner') = std_map_at i [] inner
      in (v, r\<lparr>state := outer(u \<mapsto> inner')\<rparr>))"

text \<open>Assignment through the reference that \<^verbatim>\<open>_state[u][id]\<close> returned.\<close>

definition state_assign :: "unit_e \<Rightarrow> string \<Rightarrow> 'a list \<Rightarrow> 'a Robot \<Rightarrow> 'a Robot" where
  "state_assign u i v r =
     r\<lparr>state := (state r)(u \<mapsto> std_map_assign i v (fst (map_at u [] (state r))))\<rparr>"

text \<open>
  \<^verbatim>\<open>VectorNd::operator[]\<close> with an \<^verbatim>\<open>int\<close> index: the index converts to
  \<^verbatim>\<open>unsigned\<close>, so a negative one is out of range like one past the end.
\<close>

definition vec_get :: "'a list \<Rightarrow> int \<Rightarrow> error + 'a" where
  "vec_get v i = (if 0 \<le> i \<and> nat i < length v then Inr (v ! nat i) else Inl InvalidIndex)"

definition vec_set :: "'a list \<Rightarrow> int \<Rightarrow> 'a \<Rightarrow> error + 'a list" where
  "vec_set v i x = (if 0 \<le> i \<and> nat i < length v then Inr (v[nat i := x]) else Inl InvalidIndex)"

text \<open>\<^verbatim>\<open>double get_joint_value(id, u, dof)\<close>\<close>

definition get_joint_value_dof :: "string \<Rightarrow> unit_e \<Rightarrow> int \<Rightarrow> 'a Robot \<Rightarrow> error + ('a \<times> 'a Robot)" where
  "get_joint_value_dof i u dof r =
     (let (v, r') = state_ref u i r
      in case vec_get v dof of Inl e \<Rightarrow> Inl e | Inr x \<Rightarrow> Inr (x, r'))"

text \<open>
  \<^verbatim>\<open>VectorNd get_joint_value(id, u)\<close>; the overloads that fill a \<^verbatim>\<open>VectorNd&\<close> or a
  \<^verbatim>\<open>std::vector<double>&\<close> copy the same entry.
\<close>

definition get_joint_value :: "string \<Rightarrow> unit_e \<Rightarrow> 'a Robot \<Rightarrow> 'a list \<times> 'a Robot" where
  "get_joint_value i u r = state_ref u i r"


text \<open>\<^verbatim>\<open>void set_joint_value(id, u, const VectorNd& dof_val)\<close>\<close>

definition set_joint_value :: "string \<Rightarrow> unit_e \<Rightarrow> 'a list \<Rightarrow> 'a Robot \<Rightarrow> error + 'a Robot" where
  "set_joint_value i u dof_val r =
     (case check_phase u r of
        Inl e \<Rightarrow> Inl e
      | Inr r1 \<Rightarrow>
          (let (v, r2) = state_ref u i r1
           in if length v \<noteq> length dof_val then Inl DOFMismatch
              else Inr (state_assign u i dof_val r2)))"


text \<open>
  \<^verbatim>\<open>T get_data<T>(n)\<close> of the generic data map: the template argument is the requested
  type. A missing key and a stored value of another type both throw.
\<close>

definition get_data :: "any_type \<Rightarrow> string \<Rightarrow> 'a Robot \<Rightarrow> error + 'a any" where
  "get_data t n r =
     (case data_map r n of
        Some operand \<Rightarrow> (if type_of_any operand = t then Inr operand else Inl TypeMismatch)
      | None \<Rightarrow> Inl KeyNotFound)"

subsection \<open>Generalized joint vectors\<close>

text \<open>
  The inner loop of \<^verbatim>\<open>set_joint_generalized_value\<close>:
  \<^verbatim>\<open>for(j=0;j<dof.size();j++) dof_val[j] = generalized_vec[dof[j]];\<close>
  over the indices \<open>js\<close> still to visit.
\<close>

fun copy_from_generalized :: "'a list \<Rightarrow> int list \<Rightarrow> nat list \<Rightarrow> 'a list \<Rightarrow> error + 'a list" where
  "copy_from_generalized g dof [] dof_val = Inr dof_val"
| "copy_from_generalized g dof (j # js) dof_val =
     (case vec_get g (dof ! j) of
        Inl e \<Rightarrow> Inl e
      | Inr x \<Rightarrow> copy_from_generalized g dof js (dof_val[j := x]))"

text \<open>The loop over \<^verbatim>\<open>keys = _joint_ids\<close> of \<^verbatim>\<open>set_joint_generalized_value\<close>.\<close>

fun set_joints :: "unit_e \<Rightarrow> 'a list \<Rightarrow> string list \<Rightarrow> 'a Robot \<Rightarrow> error + 'a Robot" where
  "set_joints u g [] r = Inr r"
| "set_joints u g (k # ks) r =
     (let (dof, dmap) = map_at k [] (id_dof_coord_map r);
          (dof_val, r2) = state_ref u k (r\<lparr>id_dof_coord_map := dmap\<rparr>)
      in if length dof \<noteq> length dof_val then Inl DOFMismatch
         else (case copy_from_generalized g dof [0..<length dof] dof_val of
                 Inl e \<Rightarrow> Inl e
               | Inr v \<Rightarrow> set_joints u g ks (state_assign u k v r2)))"

definition set_joint_generalized_value :: "unit_e \<Rightarrow> 'a list \<Rightarrow> 'a Robot \<Rightarrow> error + 'a Robot" where
  "set_joint_generalized_value u generalized_vec r =
     (case check_phase u r of
        Inl e \<Rightarrow> Inl e
      | Inr r1 \<Rightarrow>
          if length generalized_vec \<noteq> NUM_JOINT_DOFS r1 then Inl DOFMismatch
          else set_joints u generalized_vec (joint_ids r1) r1)"

text \<open>
  The inner loop of \<^verbatim>\<open>get_joint_generalized_value\<close>:
  \<^verbatim>\<open>for(j=0;j<(*it).second.size();j++) generalized_vec[dof[j]] = dof_val[j];\<close>
  Reading \<^verbatim>\<open>dof[j]\<close> past the end of the \<^verbatim>\<open>std::vector<int>\<close> is an error of the model.
\<close>

fun copy_to_generalized :: "'a list \<Rightarrow> int list \<Rightarrow> nat list \<Rightarrow> 'a list \<Rightarrow> error + 'a list" where
  "copy_to_generalized g dof [] dof_val = Inr g"
| "copy_to_generalized g dof (j # js) dof_val =
     (if j < length dof then
        (case vec_set g (dof ! j) (dof_val ! j) of
           Inl e \<Rightarrow> Inl e
         | Inr g' \<Rightarrow> copy_to_generalized g' dof js dof_val)
      else Inl InvalidIndex)"

text \<open>
  The loop over the entries of \<^verbatim>\<open>_state[u]\<close>; \<^verbatim>\<open>_id_dof_coord_map[(*it).first]\<close> inserts
  an empty coordinate list for an id the map does not know.
\<close>

fun get_joints :: "(string \<times> 'a list) list \<Rightarrow> 'a list \<Rightarrow> (string \<rightharpoonup> int list)
                    \<Rightarrow> error + ('a list \<times> (string \<rightharpoonup> int list))" where
  "get_joints [] g dmap = Inr (g, dmap)"
| "get_joints ((k, dof_val) # es) g dmap =
     (let (dof, dmap') = map_at k [] dmap
      in case copy_to_generalized g dof [0..<length dof_val] dof_val of
           Inl e \<Rightarrow> Inl e
         | Inr g' \<Rightarrow> get_joints es g' dmap')"

definition get_joint_generalized_value :: "unit_e \<Rightarrow> 'a::zero Robot \<Rightarrow> error + ('a list \<times> 'a Robot)" where
  "get_joint_generalized_value u r =
     (let (inner, outer) = map_at u [] (state r)
      in case get_joints inner (replicate (NUM_JOINT_DOFS r) 0) (id_dof_coord_map r) of
           Inl e \<Rightarrow> Inl e
         | Inr (g, dmap) \<Rightarrow> Inr (g, r\<lparr>state := outer, id_dof_coord_map := dmap\<rparr>))"

subsection \<open>Contacts\<close>

definition create_contact :: "string \<Rightarrow> 'a \<times> 'a \<times> 'a \<Rightarrow> 'a \<times> 'a \<times> 'a \<Rightarrow> 'a \<times> 'a \<times> 'a \<Rightarrow> 'a \<times> 'a \<times> 'a
                                \<Rightarrow> 'a \<Rightarrow> 'a \<Rightarrow> 'a \<Rightarrow> bool \<Rightarrow> 'a contact_t" where
  "create_contact i p n t imp mc mv rest cpl =
     \<lparr>id_c = i, point = p, normal = n, tangent = t, impulse = imp,
      mu_coulomb = mc, mu_viscous = mv, restitution = rest, compliant = cpl\<rparr>"

text \<open>\<^verbatim>\<open>void add_contact(boost::shared_ptr<const contact_t>& c)\<close>\<close>

definition add_contact :: "'a contact_t \<Rightarrow> 'a Robot \<Rightarrow> error + 'a Robot" where
  "add_contact c r =
     (case check_phase misc_sensor r of
        Inl e \<Rightarrow> Inl e
      | Inr r1 \<Rightarrow>
          (let (cs, m) = map_at (id_c c) [] (id_contacts_map r1)
           in Inr (r1\<lparr>id_contacts_map := m(id_c c \<mapsto> cs @ [c])\<rparr>)))"

text \<open>\<^verbatim>\<open>void add_contact(id, point, normal, tangent, impulse, mu_coulomb, ...)\<close>\<close>

definition add_contact_new :: "string \<Rightarrow> 'a \<times> 'a \<times> 'a \<Rightarrow> 'a \<times> 'a \<times> 'a \<Rightarrow> 'a \<times> 'a \<times> 'a \<Rightarrow> 'a \<times> 'a \<times> 'a
                                 \<Rightarrow> 'a \<Rightarrow> 'a \<Rightarrow> 'a \<Rightarrow> bool \<Rightarrow> 'a Robot \<Rightarrow> error + 'a Robot" where
  "add_contact_new i p n t imp mc mv rest cpl r =
     (case check_phase misc_sensor r of
        Inl e \<Rightarrow> Inl e
      | Inr r1 \<Rightarrow>
          (let (cs, m) = map_at i [] (id_contacts_map r1)
           in Inr (r1\<lparr>id_contacts_map := m(i \<mapsto> cs @ [create_contact i p n t imp mc mv rest cpl])\<rparr>)))"

definition get_contacts :: "'a Robot \<Rightarrow> (string \<rightharpoonup> 'a contact_t list)" where
  "get_contacts r = id_contacts_map r"

text \<open>
  The loop of \<^verbatim>\<open>get_all_contacts\<close> over \<^verbatim>\<open>_link_ids\<close>: each link's contacts are appended
  to the caller's vector; \<^verbatim>\<open>_id_contacts_map[...]\<close> inserts an empty entry for a link
  without contacts.
\<close>

fun collect_contacts :: "string list \<Rightarrow> 'a contact_t list \<Rightarrow> (string \<rightharpoonup> 'a contact_t list)
                          \<Rightarrow> 'a contact_t list \<times> (string \<rightharpoonup> 'a contact_t list)" where
  "collect_contacts [] contacts m = (contacts, m)"
| "collect_contacts (l # ls) contacts m =
     (let (c, m') = map_at l [] m in collect_contacts ls (contacts @ c) m')"

definition get_all_contacts :: "'a contact_t list \<Rightarrow> 'a Robot \<Rightarrow> int \<times> 'a contact_t list \<times> 'a Robot" where
  "get_all_contacts contacts r =
     (let (contacts', m) = collect_contacts (link_ids r) contacts (id_contacts_map r)
      in (int (length contacts'), contacts', r\<lparr>id_contacts_map := m\<rparr>))"

definition reset_contact :: "'a Robot \<Rightarrow> error + 'a Robot" where
  "reset_contact r =
     (case check_phase clean_up r of
        Inl e \<Rightarrow> Inl e
      | Inr r1 \<Rightarrow> Inr (r1\<lparr>id_contacts_map := Map.empty\<rparr>))"

text \<open>
  A sequence of calls of \<^verbatim>\<open>add_contact\<close>, one for each element of a list, in order:
  through the overload that takes the nine values (each element of the list holds the
  arguments of one call), and through the overload that takes the contact.
\<close>

fun add_contacts_new :: "'a contact_t list \<Rightarrow> 'a Robot \<Rightarrow> error + 'a Robot" where
  "add_contacts_new [] r = Inr r"
| "add_contacts_new (a # as) r =
     (case add_contact_new (id_c a) (point a) (normal a) (tangent a) (impulse a)
             (mu_coulomb a) (mu_viscous a) (restitution a) (compliant a) r of
        Inl e \<Rightarrow> Inl e
      | Inr r' \<Rightarrow> add_contacts_new as r')"

fun add_contacts :: "'a contact_t list \<Rightarrow> 'a Robot \<Rightarrow> error + 'a Robot" where
  "add_contacts [] r = Inr r"
| "add_contacts (c # cs) r =
     (case add_contact c r of Inl e \<Rightarrow> Inl e | Inr r' \<Rightarrow> add_contacts cs r')"

section \<open>The quadruped's control tick (Examples/Quadruped/quadruped.cc)\<close>

text \<open>The compile-time switches at the head of quadruped.cc.\<close>

definition WALK :: bool where "WALK = True"
definition TRUNK_STABILIZATION :: bool where "TRUNK_STABILIZATION = False"
definition CONTROL_IDYN :: bool where "CONTROL_IDYN = True"
definition FRICTION_EST :: bool where "FRICTION_EST = False"
definition PARALLEL_STIFFNESS :: bool where "PARALLEL_STIFFNESS = False"

text \<open>
  The table \<^verbatim>\<open>torque_limits_\<close> that \<^verbatim>\<open>Quadruped::init\<close> fills ("Maximum torques"), in
  the order of the assignments.
\<close>

definition torque_limits :: "(string \<times> real) list" where
  "torque_limits =
     [(''BODY_JOINT'', 2.60),
      (''LF_HIP_AA'', 2.60), (''LF_HIP_FE'', 2.60), (''LF_LEG_FE'', 2.60),
      (''RF_HIP_AA'', 2.60), (''RF_HIP_FE'', 2.60), (''RF_LEG_FE'', 2.60),
      (''LH_HIP_AA'', 2.60), (''LH_HIP_FE'', 6.00), (''LH_LEG_FE'', 2.60),
      (''RH_HIP_AA'', 2.60), (''RH_HIP_FE'', 6.00), (''RH_LEG_FE'', 2.60)]"

text \<open>\<^verbatim>\<open>a += b\<close> and \<^verbatim>\<open>a *= s\<close> on \<^verbatim>\<open>VectorNd\<close>.\<close>

definition vec_plus :: "real list \<Rightarrow> real list \<Rightarrow> error + real list" where
  "vec_plus a b = (if length a \<noteq> length b then Inl Missize else Inr (map2 (+) a b))"

definition vec_scale :: "real \<Rightarrow> real list \<Rightarrow> real list" where
  "vec_scale s a = map (\<lambda>x. x * s) a"

text \<open>
  What the functions that \<^verbatim>\<open>Quadruped::control\<close> calls, and that are not part of the
  sources at hand, hand back during one tick: the output \<^verbatim>\<open>id\<close> of
  \<^verbatim>\<open>contact_jacobian_null_stabilizer\<close>, the member \<^verbatim>\<open>ufb\<close> as \<^verbatim>\<open>eef_stiffness_fb\<close>
  leaves it, the member \<^verbatim>\<open>ufb\<close> as \<^verbatim>\<open>PID::control\<close> leaves it (the call passes
  \<^verbatim>\<open>qdd_des\<close>, not \<^verbatim>\<open>ufb\<close>, as its last argument), and the output \<^verbatim>\<open>id\<close> of
  \<^verbatim>\<open>inverse_dynamics\<close>.
\<close>

record control_externals =
  stabilizer_id :: "real list"
  stiffness_ufb :: "real list"
  pid_ufb :: "real list"
  idyn_id :: "real list"

text \<open>
  The torque path of \<^verbatim>\<open>Quadruped::control\<close>: \<^verbatim>\<open>uff\<close>, \<^verbatim>\<open>ufb\<close> and \<^verbatim>\<open>u\<close> are zeroed,
  the stabilizer and the inverse dynamics add to \<^verbatim>\<open>uff\<close> (the latter scaled by
  \<^verbatim>\<open>alpha = 1.0\<close>), and the result is \<^verbatim>\<open>u = ufb; u += uff;\<close>. The planning calls, the
  logging and the bookkeeping of contacts do not touch these members.
\<close>

definition control :: "nat \<Rightarrow> control_externals \<Rightarrow> error + real list" where
  "control NUM_JOINTS ext =
     (let uff = replicate NUM_JOINTS 0;
          ufb = replicate NUM_JOINTS (0::real);
          alpha = 1
      in case (if TRUNK_STABILIZATION then vec_plus uff (stabilizer_id ext) else Inr uff) of
           Inl e \<Rightarrow> Inl e
         | Inr uff1 \<Rightarrow>
             (let ufb1 = (if PARALLEL_STIFFNESS then stiffness_ufb ext else pid_ufb ext)
              in case (if CONTROL_IDYN then vec_plus uff1 (vec_scale alpha (idyn_id ext))
                       else Inr uff1) of
                   Inl e \<Rightarrow> Inl e
                 | Inr uff2 \<Rightarrow> vec_plus ufb1 uff2))"

text \<open>
  The bound that the specification puts on the command: every element within the limit
  of its joint, for the joints that the table knows.
\<close>

definition within_torque_limits :: "string list \<Rightarrow> real list \<Rightarrow> bool" where
  "within_torque_limits names u =
     list_all2 (\<lambda>n x. case map_of torque_limits n of None \<Rightarrow> True | Some l \<Rightarrow> \<bar>x\<bar> \<le> l) names u"

definition leg_joint_names :: "string list" where
  "leg_joint_names =
     [''LF_HIP_AA'', ''LF_HIP_FE'', ''LF_LEG_FE'', ''RF_HIP_AA'', ''RF_HIP_FE'', ''RF_LEG_FE'',
      ''LH_HIP_AA'', ''LH_HIP_FE'', ''LH_LEG_FE'', ''RH_HIP_AA'', ''RH_HIP_FE'', ''RH_LEG_FE'']"

section \<open>Friction estimation (estimatefrict.cpp)\<close>

subsection \<open>Vectors and matrices of the linear-algebra library\<close>

text \<open>
  A \<^verbatim>\<open>Moby::MatrixN\<close>: its two dimensions and its elements by row and column. A
  \<^verbatim>\<open>Moby::VectorN\<close> is a list. Doubles are real numbers here.
\<close>

record 'a mat =
  nrows :: nat
  ncols :: nat
  elem :: "nat \<Rightarrow> nat \<Rightarrow> 'a"

text \<open>\<^verbatim>\<open>M(i,j)\<close> as a read and as an assignment; an index outside the matrix is an error.\<close>

definition mat_get :: "'a mat \<Rightarrow> nat \<Rightarrow> nat \<Rightarrow> error + 'a" where
  "mat_get M i j = (if i < nrows M \<and> j < ncols M then Inr (elem M i j) else Inl InvalidIndex)"

definition mat_set :: "'a mat \<Rightarrow> nat \<Rightarrow> nat \<Rightarrow> 'a \<Rightarrow> error + 'a mat" where
  "mat_set M i j x =
     (if i < nrows M \<and> j < ncols M
      then Inr (M\<lparr>elem := (elem M)(i := (elem M i)(j := x))\<rparr>)
      else Inl InvalidIndex)"

text \<open>\<^verbatim>\<open>set_zero(r, c)\<close>, \<^verbatim>\<open>negate()\<close> and \<^verbatim>\<open>transpose\<close>.\<close>

definition mat_zero :: "nat \<Rightarrow> nat \<Rightarrow> real mat" where
  "mat_zero r c = \<lparr>nrows = r, ncols = c, elem = (\<lambda>i j. 0)\<rparr>"

definition mat_negate :: "real mat \<Rightarrow> real mat" where
  "mat_negate M = M\<lparr>elem := (\<lambda>i j. - elem M i j)\<rparr>"

definition mat_transpose :: "real mat \<Rightarrow> real mat" where
  "mat_transpose M = \<lparr>nrows = ncols M, ncols = nrows M, elem = (\<lambda>i j. elem M j i)\<rparr>"

definition vec_negate :: "real list \<Rightarrow> real list" where
  "vec_negate v = map uminus v"

text \<open>\<^verbatim>\<open>resize(n)\<close> keeps the leading elements; new elements are written before they are read.\<close>

definition vec_resize :: "nat \<Rightarrow> real list \<Rightarrow> real list" where
  "vec_resize n v = take n v @ replicate (n - length v) 0"

text \<open>\<^verbatim>\<open>q.set_sub_vec(start, v)\<close> overwrites \<^verbatim>\<open>q\<close> from \<^verbatim>\<open>start\<close> on with \<^verbatim>\<open>v\<close>.\<close>

definition vec_set_sub :: "nat \<Rightarrow> real list \<Rightarrow> real list \<Rightarrow> error + real list" where
  "vec_set_sub start v q =
     (if start + length v \<le> length q
      then Inr (take start q @ v @ drop (start + length v) q)
      else Inl Missize)"

text \<open>Sequencing of calls that may throw.\<close>

definition ebind :: "error + 'a \<Rightarrow> ('a \<Rightarrow> error + 'b) \<Rightarrow> error + 'b" where
  "ebind x f = (case x of Inl e \<Rightarrow> Inl e | Inr v \<Rightarrow> f v)"

text \<open>\<^verbatim>\<open>for(int i=0;i<n;i++) body\<close> over the indices still to run, on the state the body updates.\<close>

fun for_loop :: "nat list \<Rightarrow> (nat \<Rightarrow> 's \<Rightarrow> error + 's) \<Rightarrow> 's \<Rightarrow> error + 's" where
  "for_loop [] body s = Inr s"
| "for_loop (i # is) body s = ebind (body i s) (for_loop is body)"

subsection \<open>\<^verbatim>\<open>setblock\<close> and \<^verbatim>\<open>solve_qp\<close>\<close>

text \<open>
  \<^verbatim>\<open>setblock(M, I, J, P, Q, m)\<close> copies the leading \<^verbatim>\<open>P\<close> by \<^verbatim>\<open>Q\<close> block of \<^verbatim>\<open>m\<close> to
  \<^verbatim>\<open>M\<close> at row \<^verbatim>\<open>I\<close>, column \<^verbatim>\<open>J\<close>. Its \<^verbatim>\<open>int\<close> arguments are sizes and offsets, never
  negative at its calls.
\<close>

definition setblock :: "'a mat \<Rightarrow> nat \<Rightarrow> nat \<Rightarrow> nat \<Rightarrow> nat \<Rightarrow> 'a mat \<Rightarrow> error + 'a mat" where
  "setblock M I J P Q m =
     for_loop [0..<P]
       (\<lambda>i M1. for_loop [0..<Q]
                  (\<lambda>j M2. ebind (mat_get m i j) (\<lambda>x. mat_set M2 (I + i) (J + j) x)) M1) M"

text \<open>
  The solver \<^verbatim>\<open>Moby::Optimization::lcp_lemke_regularized(M, q, z)\<close> is not part of the
  sources: it is a parameter that maps the matrix, the vector and the incoming \<^verbatim>\<open>z\<close> to
  its return value and the outgoing \<^verbatim>\<open>z\<close>.
\<close>

type_synonym lcp_solver = "real mat \<Rightarrow> real list \<Rightarrow> real list \<Rightarrow> bool \<times> real list"

text \<open>
  \<^verbatim>\<open>solve_qp(Q, c, A, b, x)\<close>. All five arguments are references: the result holds their
  values on return, followed by the returned flag.
\<close>

definition solve_qp :: "lcp_solver \<Rightarrow> real mat \<Rightarrow> real list \<Rightarrow> real mat \<Rightarrow> real list \<Rightarrow> real list
                        \<Rightarrow> error + (real mat \<times> real list \<times> real mat \<times> real list \<times> real list \<times> bool)" where
  "solve_qp lemke Q c A b x =
     (let n = nrows Q;
          m = nrows A;
          x1 = vec_resize n x;
          MMM0 = mat_zero (nrows Q * 2 + nrows A) (nrows Q * 2 + nrows A)
      in ebind (setblock MMM0 0 0 n n Q) (\<lambda>MMM1.
         ebind (setblock MMM1 n n n n Q) (\<lambda>MMM2.
         let Q' = mat_negate Q in
         ebind (setblock MMM2 0 n n n Q') (\<lambda>MMM3.
         ebind (setblock MMM3 n 0 n n Q') (\<lambda>MMM4.
         let AT = mat_transpose A in
         ebind (setblock MMM4 n (n * 2) n m AT) (\<lambda>MMM5.
         let AT' = mat_negate AT in
         ebind (setblock MMM5 0 (n * 2) n m AT') (\<lambda>MMM6.
         ebind (setblock MMM6 (n * 2) 0 m n A) (\<lambda>MMM7.
         let A' = mat_negate A in
         ebind (setblock MMM7 (n * 2) n m n A') (\<lambda>MMM.
         let qqq0 = vec_resize (nrows MMM) [] in
         ebind (vec_set_sub 0 c qqq0) (\<lambda>qqq1.
         let c' = vec_negate c in
         ebind (vec_set_sub n c' qqq1) (\<lambda>qqq2.
         let b' = vec_negate b in
         ebind (vec_set_sub (2 * n) b' qqq2) (\<lambda>qqq.
         let zzz0 = replicate (length qqq) 0;
             (SOLVE_FLAG, zzz) = lemke MMM qqq zzz0
         in ebind (for_loop [0..<n]
                     (\<lambda>i x2. ebind (vec_get zzz (int i)) (\<lambda>zi.
                              ebind (vec_get zzz (int n + int i)) (\<lambda>zni.
                              vec_set x2 (int i) (zi - zni)))) x1) (\<lambda>x'.
         Inr (Q', c', A', b', x', SOLVE_FLAG))))))))))))))"

subsection \<open>Further operations of the linear-algebra library\<close>

text \<open>
  The operations below are calls into the library; each is its mathematical meaning,
  with the library's complaint about sizes that do not fit.
\<close>

definition vec_minus :: "real list \<Rightarrow> real list \<Rightarrow> error + real list" where
  "vec_minus a b = (if length a \<noteq> length b then Inl Missize else Inr (map2 (-) a b))"

definition vec_norm :: "real list \<Rightarrow> real" where
  "vec_norm v = sqrt (\<Sum>x\<leftarrow>v. x * x)"

text \<open>\<^verbatim>\<open>M.mult(v, out)\<close> and \<^verbatim>\<open>M.transpose_mult(v, out)\<close>.\<close>

definition mat_mult_vec :: "real mat \<Rightarrow> real list \<Rightarrow> error + real list" where
  "mat_mult_vec M v =
     (if ncols M \<noteq> length v then Inl Missize
      else Inr (map (\<lambda>i. \<Sum>j\<leftarrow>[0..<ncols M]. elem M i j * v ! j) [0..<nrows M]))"

definition mat_transpose_mult_vec :: "real mat \<Rightarrow> real list \<Rightarrow> error + real list" where
  "mat_transpose_mult_vec M v =
     (if nrows M \<noteq> length v then Inl Missize
      else Inr (map (\<lambda>j. \<Sum>i\<leftarrow>[0..<nrows M]. elem M i j * v ! i) [0..<ncols M]))"

text \<open>\<^verbatim>\<open>M.transpose_mult(B, out)\<close>: the product of the transpose of \<^verbatim>\<open>M\<close> with \<^verbatim>\<open>B\<close>.\<close>

definition mat_transpose_mult :: "real mat \<Rightarrow> real mat \<Rightarrow> error + real mat" where
  "mat_transpose_mult M B =
     (if nrows M \<noteq> nrows B then Inl Missize
      else Inr \<lparr>nrows = ncols M, ncols = ncols B,
                elem = (\<lambda>i j. \<Sum>k\<leftarrow>[0..<nrows M]. elem M k i * elem B k j)\<rparr>)"

text \<open>\<^verbatim>\<open>get_sub_mat(r0, r1, c0, c1)\<close>, \<^verbatim>\<open>get_sub_vec(a, b)\<close>, \<^verbatim>\<open>set_row\<close> and \<^verbatim>\<open>set_sub_mat\<close>.\<close>

definition get_sub_mat :: "real mat \<Rightarrow> nat \<Rightarrow> nat \<Rightarrow> nat \<Rightarrow> nat \<Rightarrow> error + real mat" where
  "get_sub_mat M r0 r1 c0 c1 =
     (if r0 \<le> r1 \<and> r1 \<le> nrows M \<and> c0 \<le> c1 \<and> c1 \<le> ncols M
      then Inr \<lparr>nrows = r1 - r0, ncols = c1 - c0, elem = (\<lambda>i j. elem M (r0 + i) (c0 + j))\<rparr>
      else Inl Missize)"

definition get_sub_vec :: "real list \<Rightarrow> nat \<Rightarrow> nat \<Rightarrow> error + real list" where
  "get_sub_vec v a b =
     (if a \<le> b \<and> b \<le> length v then Inr (take (b - a) (drop a v)) else Inl Missize)"

definition set_row :: "real mat \<Rightarrow> nat \<Rightarrow> real list \<Rightarrow> error + real mat" where
  "set_row M i v =
     (if i < nrows M \<and> length v = ncols M
      then Inr (M\<lparr>elem := (\<lambda>r k. if r = i \<and> k < ncols M then v ! k else elem M r k)\<rparr>)
      else Inl Missize)"

definition set_sub_mat :: "real mat \<Rightarrow> nat \<Rightarrow> nat \<Rightarrow> real mat \<Rightarrow> error + real mat" where
  "set_sub_mat M r0 c0 B =
     (if r0 + nrows B \<le> nrows M \<and> c0 + ncols B \<le> ncols M
      then Inr (M\<lparr>elem := (\<lambda>r k. if r0 \<le> r \<and> r < r0 + nrows B \<and> c0 \<le> k \<and> k < c0 + ncols B
                                   then elem B (r - r0) (k - c0) else elem M r k)\<rparr>)
      else Inl Missize)"

text \<open>
  \<^verbatim>\<open>Moby::LinAlg::svd(Q, U, S, V)\<close> is a parameter as well: it maps the matrix to
  \<^verbatim>\<open>U\<close>, the singular values \<^verbatim>\<open>S\<close> (largest first) and \<^verbatim>\<open>V\<close>.
\<close>

type_synonym svd_solver = "real mat \<Rightarrow> real mat \<times> real list \<times> real mat"

text \<open>\<^verbatim>\<open>std::numeric_limits<double>::epsilon()\<close>\<close>

definition dbl_epsilon :: real where
  "dbl_epsilon = 1 / 2 ^ 52"

text \<open>A double that may be the NaN that \<^verbatim>\<open>sqrt(-1)\<close> yields.\<close>

datatype dbl = Fin real | NaN

subsection \<open>\<^verbatim>\<open>friction_estimation\<close>\<close>

text \<open>
  The function's \<^verbatim>\<open>static\<close> variables; \<open>v_prev\<close> and \<open>f_prev\<close> are the source's
  \<^verbatim>\<open>v_\<close> and \<^verbatim>\<open>f_\<close> ("previous values").
\<close>

record fe_statics =
  ITER :: int
  v_prev :: "real list"
  f_prev :: "real list"

text \<open>
  Stage I, compiled without \<^verbatim>\<open>USE_D\<close>: the matrix \<^verbatim>\<open>ST\<close> from the columns of \<^verbatim>\<open>D\<close>,
  \<^verbatim>\<open>R = [N ST]\<close>, the objective \<^verbatim>\<open>Q\<close>, \<^verbatim>\<open>c\<close>, the constraint \<^verbatim>\<open>A\<close>, \<^verbatim>\<open>b\<close>, and the
  call of \<^verbatim>\<open>solve_qp\<close>. The result is \<^verbatim>\<open>R\<close> and, as \<^verbatim>\<open>solve_qp\<close> leaves them, \<^verbatim>\<open>Q\<close>,
  \<^verbatim>\<open>c\<close>, \<^verbatim>\<open>z\<close> and the flag.
\<close>

definition fe_stage1 :: "lcp_solver \<Rightarrow> real mat \<Rightarrow> real mat \<Rightarrow> real list \<Rightarrow> nat \<Rightarrow> nat \<Rightarrow> nat
                         \<Rightarrow> error + (real mat \<times> real mat \<times> real list \<times> real list \<times> bool)" where
  "fe_stage1 lemke N D jstar nc ngc nk =
     ebind (for_loop [0..<nc]
              (\<lambda>i ST1. for_loop [0..<ngc]
                 (\<lambda>j ST2. ebind (mat_get D j (i * nk)) (\<lambda>d0.
                           ebind (mat_set ST2 j i d0) (\<lambda>ST3.
                           ebind (mat_get D j (i * nk + 1)) (\<lambda>d1.
                           mat_set ST3 j (nc + i) d1)))) ST1)
              (mat_zero (nrows D) (ncols D div 2))) (\<lambda>ST.
     let n = ncols N + ncols ST in
     ebind (setblock (mat_zero ngc n) 0 0 (nrows N) (ncols N) N) (\<lambda>R1.
     ebind (setblock R1 0 (ncols N) (nrows ST) (ncols ST) ST) (\<lambda>R.
     ebind (mat_transpose_mult R R) (\<lambda>Q.
     ebind (mat_transpose_mult_vec R jstar) (\<lambda>c0.
     let c = vec_negate c0 in
     ebind (for_loop [0..<nc] (\<lambda>i A1. mat_set A1 i i 1) (mat_zero nc n)) (\<lambda>A.
     let b = replicate nc 0;
         z = replicate n 0
     in ebind (solve_qp lemke Q c A b z) (\<lambda>(Q', c', A', b', z', ok).
        Inr (R, Q', c', z', ok))))))))"

text \<open>
  The loop that counts the singular values not above the tolerance, from the last one
  backwards: \<^verbatim>\<open>for(int i = S.rows()-1;i>=0;i--,m++) if(S[i] > ZERO_TOL) break;\<close>
\<close>

fun count_zero_sv :: "real list \<Rightarrow> real \<Rightarrow> nat list \<Rightarrow> nat \<Rightarrow> nat" where
  "count_zero_sv S tol [] m = m"
| "count_zero_sv S tol (i # is) m = (if S ! i > tol then m else count_zero_sv S tol is (m + 1))"

text \<open>
  Stage II, entered when Stage I succeeded: the null space \<^verbatim>\<open>P\<close> of \<^verbatim>\<open>Q\<close> by the
  singular value decomposition, and, when it is not trivial, the second program in
  \<^verbatim>\<open>w\<close> and the update \<^verbatim>\<open>z += P w\<close> with the new error norm. \<^verbatim>\<open>Q\<close> and \<^verbatim>\<open>c\<close> are the
  variables of Stage I as \<^verbatim>\<open>solve_qp\<close> left them. The result is \<^verbatim>\<open>z\<close> and \<^verbatim>\<open>norm_error\<close>.
\<close>

definition fe_stage2 :: "lcp_solver \<Rightarrow> svd_solver \<Rightarrow> real mat \<Rightarrow> real mat \<Rightarrow> real list \<Rightarrow> real list
                         \<Rightarrow> real list \<Rightarrow> nat \<Rightarrow> real \<Rightarrow> error + (real list \<times> real)" where
  "fe_stage2 lemke svd R Q c z jstar nc norm_error =
     (let (U, S, V) = svd Q
      in if length S = 0 then Inr (z, norm_error)
         else
           (let ZERO_TOL = dbl_epsilon * real (nrows Q) * S ! 0;
                m = count_zero_sv S ZERO_TOL (rev [0..<length S]) 0
            in ebind (if m \<le> ncols V then get_sub_mat V 0 (nrows V) (ncols V - m) (ncols V)
                      else Inl Missize) (\<lambda>P.
               if m = 0 then Inr (z, norm_error)
               else
                 ebind (get_sub_vec z 0 nc) (\<lambda>cN.
                 ebind (get_sub_mat P 0 nc 0 m) (\<lambda>P_nc.
                 ebind (mat_transpose_mult P P) (\<lambda>Q2.
                 ebind (mat_transpose_mult_vec P z) (\<lambda>c2.
                 ebind (mat_transpose_mult_vec P c) (\<lambda>cP.
                 ebind (set_row (mat_zero (nc + 1) m) 0 cP) (\<lambda>A1.
                 ebind (vec_set (replicate (nc + 1) 0) 0 0) (\<lambda>b1.
                 ebind (set_sub_mat A1 1 0 P_nc) (\<lambda>A.
                 ebind (vec_set_sub 1 (vec_negate cN) b1) (\<lambda>b.
                 ebind (solve_qp lemke Q2 c2 A b (replicate m 0)) (\<lambda>(Q2', c2', A', b', w, ok).
                 if \<not> ok then Inr (z, norm_error)
                 else
                   ebind (mat_mult_vec P w) (\<lambda>z2.
                   ebind (vec_plus z z2) (\<lambda>z'.
                   ebind (mat_mult_vec R z') (\<lambda>err0.
                   ebind (vec_minus err0 jstar) (\<lambda>err.
                   Inr (z', vec_norm err))))))))))))))))))"

text \<open>
  The last loop: with \<^verbatim>\<open>cf = z\<close>, row \<^verbatim>\<open>i\<close> of column 0 of \<^verbatim>\<open>MU\<close> becomes the ratio of
  the tangential to the normal entry of \<^verbatim>\<open>cf\<close> when the normal entry is positive, and
  \<^verbatim>\<open>sqrt(-1)\<close> otherwise. The two reads after the branch are those of the line that
  prints the estimate.
\<close>

definition fe_mu :: "real list \<Rightarrow> nat \<Rightarrow> dbl mat \<Rightarrow> error + dbl mat" where
  "fe_mu cf nc MU =
     for_loop [0..<nc]
       (\<lambda>i MU1. ebind (vec_get cf (int i)) (\<lambda>cn.
                 ebind (if cn > 0 then
                          ebind (vec_get cf (int nc + int i)) (\<lambda>bs.
                          ebind (vec_get cf (int nc * 2 + int i)) (\<lambda>bt.
                          mat_set MU1 i 0 (Fin (sqrt (bs * bs + bt * bt) / cn))))
                        else mat_set MU1 i 0 NaN) (\<lambda>MU2.
                 ebind (vec_get cf (int i + int nc)) (\<lambda>p1.
                 ebind (vec_get cf (int i + int nc * 2)) (\<lambda>p2.
                 Inr MU2))))) MU"

text \<open>
  \<^verbatim>\<open>friction_estimation(v, f, dt, N, D, M, post_event, MU, cf)\<close>. The parameters in front
  are the two library solvers and the global \<^verbatim>\<open>cf_moby\<close>; \<open>st\<close> holds the statics. The
  result is the returned \<^verbatim>\<open>norm_error\<close>, \<^verbatim>\<open>MU\<close> and \<^verbatim>\<open>cf\<close> on return, and the statics.
  The printing is left out, and so is the Cholesky solve whose result is only printed.
\<close>

definition friction_estimation ::
  "lcp_solver \<Rightarrow> svd_solver \<Rightarrow> real list \<Rightarrow> fe_statics \<Rightarrow> real list \<Rightarrow> real list \<Rightarrow> real
   \<Rightarrow> real mat \<Rightarrow> real mat \<Rightarrow> real mat \<Rightarrow> bool \<Rightarrow> dbl mat \<Rightarrow> real list
   \<Rightarrow> error + (real \<times> dbl mat \<times> real list \<times> fe_statics)" where
  "friction_estimation lemke svd cf_moby st v f dt N D M post_event MU cf =
     (let norm_error = - 1;
          nc = ncols N
      in if post_event then
           (if nc > 0 then
              (let st1 = st\<lparr>ITER := ITER st + 1\<rparr>;
                   ngc = length (f_prev st1);
                   nk = ncols D div nc;
                   cf1 = vec_resize (nc + nc * (nk div 2)) cf
               in ebind (vec_minus v (v_prev st1)) (\<lambda>dv.
                  ebind (mat_mult_vec M dv) (\<lambda>jstar0.
                  let st2 = st1\<lparr>f_prev := vec_scale dt (f_prev st1)\<rparr> in
                  ebind (vec_minus jstar0 (f_prev st2)) (\<lambda>jstar.
                  ebind (fe_stage1 lemke N D jstar nc ngc nk) (\<lambda>(R, Q, c, z, ok).
                  ebind (if \<not> ok then Inr (z, norm_error)
                         else
                           ebind (mat_mult_vec R z) (\<lambda>err0.
                           ebind (vec_minus err0 jstar) (\<lambda>err.
                           ebind (mat_mult_vec R cf_moby) (\<lambda>err1.
                           ebind (vec_minus err1 jstar) (\<lambda>err2.
                           fe_stage2 lemke svd R Q c z jstar nc (vec_norm err2))))))
                    (\<lambda>(z', norm_error').
                  ebind (fe_mu z' nc MU) (\<lambda>MU'.
                  Inr (norm_error', MU', z', st2\<lparr>v_prev := v\<rparr>))))))))
            else Inr (norm_error, MU, cf, st\<lparr>v_prev := v\<rparr>))
         else Inr (norm_error, MU, cf, st\<lparr>f_prev := f\<rparr>))"

section \<open>Notions used in the statements\<close>

text \<open>A call that returns (right) rather than throws (left).\<close>

definition succeeds :: "'e + 'b \<Rightarrow> bool" where
  "succeeds x = (case x of Inl _ \<Rightarrow> False | Inr _ \<Rightarrow> True)"

text \<open>The value under a key of a map of vectors, empty when the key is absent.\<close>

definition lookup_or_empty :: "('k \<rightharpoonup> 'v list) \<Rightarrow> 'k \<Rightarrow> 'v list" where
  "lookup_or_empty m k = (case m k of None \<Rightarrow> [] | Some v \<Rightarrow> v)"

text \<open>The coordinate indices of a joint, and the entries of \<^verbatim>\<open>_state[u]\<close>.\<close>

definition dofs :: "'a Robot \<Rightarrow> string \<Rightarrow> int list" where
  "dofs r k = lookup_or_empty (id_dof_coord_map r) k"

definition joint_store :: "unit_e \<Rightarrow> 'a Robot \<Rightarrow> (string \<times> 'a list) list" where
  "joint_store u r = lookup_or_empty (state r) u"

definition joint_entry :: "unit_e \<Rightarrow> string \<Rightarrow> 'a Robot \<Rightarrow> 'a list option" where
  "joint_entry u i r = (case state r u of None \<Rightarrow> None | Some m \<Rightarrow> map_of m i)"


text \<open>
  The state of the joint store for a unit that the round trip relies on: the keys of the
  \<^verbatim>\<open>std::map\<close> increase; every joint of \<^verbatim>\<open>_joint_ids\<close> has an entry as long as its
  coordinate list, with coordinates below \<^verbatim>\<open>NUM_JOINT_DOFS\<close>; an entry under an id that is
  not a joint is empty; every coordinate below \<^verbatim>\<open>NUM_JOINT_DOFS\<close> belongs to a joint.
\<close>

definition joint_store_ok :: "unit_e \<Rightarrow> 'a Robot \<Rightarrow> bool" where
  "joint_store_ok u r =
     (sorted_wrt (<) (map fst (joint_store u r))
      \<and> list_all (\<lambda>k. length (lookup_or_empty (map_of (joint_store u r)) k) = length (dofs r k)
                       \<and> list_all (\<lambda>d. 0 \<le> d \<and> d < int (NUM_JOINT_DOFS r)) (dofs r k))
                  (joint_ids r)
      \<and> list_all (\<lambda>(k, val). k \<in> set (joint_ids r) \<or> val = []) (joint_store u r)
      \<and> list_all (\<lambda>c. list_ex (\<lambda>k. int c \<in> set (dofs r k)) (joint_ids r))
                  [0..<NUM_JOINT_DOFS r])"

text \<open>\<^verbatim>\<open>set_joint_generalized_value(u, v)\<close> followed by \<^verbatim>\<open>get_joint_generalized_value(u)\<close>.\<close>

definition set_then_get :: "unit_e \<Rightarrow> 'a::zero list \<Rightarrow> 'a Robot \<Rightarrow> error + 'a list" where
  "set_then_get u v r =
     (case set_joint_generalized_value u v r of
        Inl e \<Rightarrow> Inl e
      | Inr r' \<Rightarrow> map_sum id fst (get_joint_generalized_value u r'))"

text \<open>The table of legal transitions of section 4.1 of the specification.\<close>

definition listed_transition :: "ControllerPhase \<Rightarrow> ControllerPhase \<Rightarrow> bool" where
  "listed_transition p q =
     ((p, q) \<in> {(INITIALIZATION, PERCEPTION), (PERCEPTION, PLANNING), (PLANNING, CONTROL),
                (CONTROL, WAITING), (WAITING, PERCEPTION)})"

text \<open>
  A small robot for concrete runs: two one-coordinate joints and two links, with the
  store as \<^verbatim>\<open>init_state\<close> sizes it for the eight state units.
\<close>

definition state_units :: "unit_e list" where
  "state_units = [position, position_goal, velocity, velocity_goal,
                  acceleration, acceleration_goal, load, load_goal]"

definition example_robot :: "ControllerPhase \<Rightarrow> real Robot" where
  "example_robot ph =
     \<lparr>controller_phase = ph,
      data_map = Map.empty,
      id_contacts_map = Map.empty,
      state = (\<lambda>u. if u \<in> set state_units
                    then Some [(''LF_HIP_AA'', [0]), (''LF_HIP_FE'', [0])] else None),
      id_dof_coord_map = [''LF_HIP_AA'' \<mapsto> [0], ''LF_HIP_FE'' \<mapsto> [1]],
      link_ids = [''LF_FOOT'', ''RF_FOOT''],
      joint_ids = [''LF_HIP_AA'', ''LF_HIP_FE''],
      NUM_JOINT_DOFS = 2\<rparr>"

definition example_contact :: "string \<Rightarrow> real \<Rightarrow> real contact_t" where
  "example_contact l z =
     create_contact l (0, 0, z) (0, 0, 1) (1, 0, 0) (0, 0, 0) 0 0 0 False"

text \<open>The block matrix and the vector of the reduction, as the specification writes them.\<close>

definition lcp_matrix :: "real mat \<Rightarrow> real mat \<Rightarrow> real mat" where
  "lcp_matrix Q A =
     (let n = nrows Q; m = nrows A in
      \<lparr>nrows = 2 * n + m, ncols = 2 * n + m,
       elem = (\<lambda>r k.
         if r < n then
           (if k < n then elem Q r k
            else if k < 2 * n then - elem Q r (k - n)
            else if k < 2 * n + m then - elem A (k - 2 * n) r
            else 0)
         else if r < 2 * n then
           (if k < n then - elem Q (r - n) k
            else if k < 2 * n then elem Q (r - n) (k - n)
            else if k < 2 * n + m then elem A (k - 2 * n) (r - n)
            else 0)
         else if r < 2 * n + m then
           (if k < n then elem A (r - 2 * n) k
            else if k < 2 * n then - elem A (r - 2 * n) (k - n)
            else 0)
         else 0)\<rparr>)"

definition lcp_vector :: "real list \<Rightarrow> real list \<Rightarrow> real list" where
  "lcp_vector c b = c @ map uminus c @ map uminus b"

text \<open>
  A solution of the linear complementarity problem, in the words of the specification's
  glossary: \<open>z \<ge> 0\<close> with \<open>w = M z + q \<ge> 0\<close> and \<open>z\<^sup>T w = 0\<close>.
\<close>

definition lcp_solution :: "real mat \<Rightarrow> real list \<Rightarrow> real list \<Rightarrow> bool" where
  "lcp_solution M q z =
     (nrows M = length q \<and> length z = length q
      \<and> list_all (\<lambda>x. 0 \<le> x) z
      \<and> (case mat_mult_vec M z of
            Inl e \<Rightarrow> False
          | Inr Mz \<Rightarrow> list_all (\<lambda>x. 0 \<le> x) (map2 (+) Mz q)
                     \<and> (\<Sum>(a, b)\<leftarrow>zip z (map2 (+) Mz q). a * b) = 0))"

text \<open>
  What the estimator relies on in the solver: the vector it leaves has the size of \<open>q\<close>,
  and it solves the problem whenever the solver reports success.
\<close>

definition lcp_solver_ok :: "lcp_solver \<Rightarrow> bool" where
  "lcp_solver_ok lemke =
     (\<forall>M q z0. length (snd (lemke M q z0)) = length q
                \<and> (fst (lemke M q z0) \<longrightarrow> lcp_solution M q (snd (lemke M q z0))))"

text \<open>
  What Stage II relies on in the decomposition of \<^verbatim>\<open>Q\<close>: one singular value per column
  of \<^verbatim>\<open>V\<close>, and \<open>Q V = U diag(S)\<close>, column by column, as it holds for every
  decomposition \<open>Q = U diag(S) V\<^sup>T\<close> in which the columns of \<^verbatim>\<open>V\<close> are orthonormal.
\<close>

definition svd_factors :: "svd_solver \<Rightarrow> real mat \<Rightarrow> bool" where
  "svd_factors svd Q =
     (case svd Q of (U, S, V) \<Rightarrow>
        length S = ncols V
        \<and> list_all (\<lambda>k. list_all (\<lambda>i. (\<Sum>j\<leftarrow>[0..<ncols Q]. elem Q i j * elem V j k)
                                      = elem U i k * S ! k) [0..<nrows Q])
             [0..<ncols V])"

text \<open>
  The tolerance test of Stage II, \<^verbatim>\<open>S[i] > epsilon * Q.rows() * S[0]\<close>, is exact on
  \<^verbatim>\<open>Q\<close>: every singular value that it does not find above the tolerance is zero.
\<close>

definition small_singular_values_zero :: "svd_solver \<Rightarrow> real mat \<Rightarrow> bool" where
  "small_singular_values_zero svd Q =
     (case svd Q of (U, S, V) \<Rightarrow>
        list_all (\<lambda>k. S ! k > dbl_epsilon * real (nrows Q) * S ! 0 \<or> S ! k = 0) [0..<length S])"

text \<open>The least-squares residual, the norm of \<open>R z - j\<close>.\<close>

definition residual :: "real mat \<Rightarrow> real list \<Rightarrow> real list \<Rightarrow> error + real" where
  "residual R z j = ebind (mat_mult_vec R z) (\<lambda>Rz. map_sum id vec_norm (vec_minus Rz j))"

text \<open>The entry that the last loop of \<^verbatim>\<open>friction_estimation\<close> computes for row \<open>i\<close>.\<close>

definition mu_row :: "real list \<Rightarrow> nat \<Rightarrow> nat \<Rightarrow> dbl" where
  "mu_row cf nc i =
     (if cf ! i > 0
      then Fin (sqrt (cf ! (nc + i) * cf ! (nc + i) + cf ! (nc * 2 + i) * cf ! (nc * 2 + i)) / cf ! i)
      else NaN)"

text \<open>
  Data for concrete runs of the estimator: one contact on a body of three coordinates,
  with the normal along the first coordinate, one tangent along the second and a second
  tangent that does not act (so that \<^verbatim>\<open>R\<close> has a null space); a unit inertia; the body
  gains the velocity (1, -1, 0). The solver hands back a vector for each of the two
  programs that arise, after checking that it solves the problem it was given; the
  decomposition is that of the matrix \<^verbatim>\<open>Q\<close> that Stage I leaves, the diagonal matrix with
  the entries -1, -1, 0.
\<close>

definition mat_of_rows :: "'a list list \<Rightarrow> 'a mat" where
  "mat_of_rows rs = \<lparr>nrows = length rs, ncols = (case rs of [] \<Rightarrow> 0 | r # _ \<Rightarrow> length r),
                     elem = (\<lambda>i j. rs ! i ! j)\<rparr>"

definition example_lemke :: lcp_solver where
  "example_lemke M q z =
     (if nrows M = 7 \<and> lcp_solution M q [1, 0, 2, 0, 1, 0, 0] then (True, [1, 0, 2, 0, 1, 0, 0])
      else if nrows M = 4 \<and> lcp_solution M q [0, 2, 0, 0] then (True, [0, 2, 0, 0])
      else (False, replicate (length q) 0))"

definition example_svd :: svd_solver where
  "example_svd Q = (mat_of_rows [[- 1, 0, 0], [0, - 1, 0], [0, 0, 1]], [1, 1, 0],
                    mat_of_rows [[1, 0, 0], [0, 1, 0], [0, 0, 1]])"

definition example_N :: "real mat" where
  "example_N = mat_of_rows [[1], [0], [0]]"

definition example_D :: "real mat" where
  "example_D = mat_of_rows [[0, 0, 0, 0], [1, 0, -1, 0], [0, 0, 0, 0]]"

definition example_M :: "real mat" where
  "example_M = mat_of_rows [[1, 0, 0], [0, 1, 0], [0, 0, 1]]"

definition example_MU :: "dbl mat" where
  "example_MU = \<lparr>nrows = 1, ncols = 2, elem = (\<lambda>i j. Fin 0)\<rparr>"

definition example_statics :: fe_statics where
  "example_statics = \<lparr>ITER = 0, v_prev = [0, 0, 0], f_prev = [0, 0, 0]\<rparr>"

text \<open>
  A second set of data, again one contact on a body of three coordinates: the normal acts
  along the first coordinate with the factor 134217728 (2 to the power 27), the tangents
  along the second and the third with the factors 3 and 2, so that \<^verbatim>\<open>Q\<close>
  has the singular values 18014398509481984 (2 to the power 54), 9 and 4, and the
  tolerance of Stage II is 12; the body gains the velocity (134217728, 24, 18). The solver
  again checks the vector that it hands back; the decomposition is that of the matrix
  \<^verbatim>\<open>Q\<close> that Stage I leaves, the diagonal matrix with the negated singular values.
\<close>

definition stiff_lemke :: lcp_solver where
  "stiff_lemke M q z =
     (if nrows M = 7 \<and> lcp_solution M q [1, 8, 9, 0, 0, 0, 0] then (True, [1, 8, 9, 0, 0, 0, 0])
      else if nrows M = 6 \<and> lcp_solution M q [2, 0, 0, 4, 5 / 36, 0]
           then (True, [2, 0, 0, 4, 5 / 36, 0])
      else (False, replicate (length q) 0))"

definition stiff_svd :: svd_solver where
  "stiff_svd Q = (mat_of_rows [[- 1, 0, 0], [0, - 1, 0], [0, 0, - 1]], [18014398509481984, 9, 4],
                  mat_of_rows [[1, 0, 0], [0, 1, 0], [0, 0, 1]])"

definition stiff_N :: "real mat" where
  "stiff_N = mat_of_rows [[134217728], [0], [0]]"

definition stiff_D :: "real mat" where
  "stiff_D = mat_of_rows [[0, 0, 0, 0], [3, 0, -3, 0], [0, 2, 0, -2]]"

definition stiff_v :: "real list" where
  "stiff_v = [134217728, 24, 18]"

section \<open>Properties of the state store and the phase controller\<close>

subsection \<open>Auxiliary facts\<close>

lemma check_phase_cases:
  "check_phase u r = Inl PhaseViolation \<or> (\<exists>p. check_phase u r = Inr (r\<lparr>controller_phase := p\<rparr>))"
  apply (cases u; cases "controller_phase r")
  apply (simp_all add: check_phase_def check_phase_controller_def check_phase_planner_def
        check_phase_sensor_def increment_phase_def)
  apply (metis Robot.surjective Robot.update_convs(1))+
  done

lemma check_phase_fields:
  assumes "check_phase u r = Inr r1"
  shows "state r1 = state r" "id_dof_coord_map r1 = id_dof_coord_map r"
    "NUM_JOINT_DOFS r1 = NUM_JOINT_DOFS r" "joint_ids r1 = joint_ids r"
  using check_phase_cases[of u r] assms by auto

lemma map_of_std_map_assign: "map_of (std_map_assign k v m) = (map_of m)(k \<mapsto> v)"
  by (induction m) (auto simp: fun_upd_twist)

lemma keys_std_map_assign: "fst ` set (std_map_assign k v m) = insert k (fst ` set m)"
  by (simp add: dom_map_of_conv_image_fst [symmetric] map_of_std_map_assign)

lemma sorted_std_map_assign:
  "sorted_wrt (<) (map fst m) \<Longrightarrow> sorted_wrt (<) (map fst (std_map_assign k v m))"
proof (induction m)
  case Nil
  then show ?case by simp
next
  case (Cons a m)
  obtain k' v' where a: "a = (k', v')" by (cases a)
  from Cons.prems have tl: "sorted_wrt (<) (map fst m)" and hd: "\<forall>x\<in>set m. k' < fst x"
    by (auto simp: a)
  show ?case
  proof (cases "k < k'")
    case True
    with Cons.prems show ?thesis by (auto simp: a)
  next
    case False
    show ?thesis
    proof (cases "k = k'")
      case True
      with Cons.prems show ?thesis by (auto simp: a)
    next
      case ne: False
      with False have "k' < k" by simp
      moreover have "fst ` set (std_map_assign k v m) = insert k (fst ` set m)"
        by (rule keys_std_map_assign)
      ultimately have "\<forall>y\<in>fst ` set (std_map_assign k v m). k' < y"
        using hd by auto
      then have "\<forall>x\<in>set (std_map_assign k v m). k' < fst x"
        by blast
      with Cons.IH[OF tl] False ne show ?thesis by (simp add: a)
    qed
  qed
qed

lemma lookup_or_empty_map_at: "lookup_or_empty (snd (map_at k [] m)) = lookup_or_empty m"
  by (auto simp: lookup_or_empty_def map_at_def fun_eq_iff split: option.splits)

lemma fst_map_at_empty: "fst (map_at k [] m) = lookup_or_empty m k"
  by (auto simp: lookup_or_empty_def map_at_def split: option.splits)

lemma state_ref_fst: "fst (state_ref u k r) = lookup_or_empty (map_of (joint_store u r)) k"
  by (auto simp: state_ref_def joint_store_def lookup_or_empty_def map_at_def std_map_at_def
      split: option.splits prod.splits)

lemma state_ref_snd:
  "joint_store u (snd (state_ref u k r)) =
     (case map_of (joint_store u r) k of
        None \<Rightarrow> std_map_assign k [] (joint_store u r)
      | Some _ \<Rightarrow> joint_store u r)"
  "id_dof_coord_map (snd (state_ref u k r)) = id_dof_coord_map r"
  "NUM_JOINT_DOFS (snd (state_ref u k r)) = NUM_JOINT_DOFS r"
  "joint_ids (snd (state_ref u k r)) = joint_ids r"
  by (auto simp: state_ref_def joint_store_def lookup_or_empty_def map_at_def std_map_at_def
      split: option.splits prod.splits)

lemma state_assign_simps:
  "joint_store u (state_assign u k v r) = std_map_assign k v (joint_store u r)"
  "id_dof_coord_map (state_assign u k v r) = id_dof_coord_map r"
  "NUM_JOINT_DOFS (state_assign u k v r) = NUM_JOINT_DOFS r"
  "joint_ids (state_assign u k v r) = joint_ids r"
  by (auto simp: state_assign_def joint_store_def lookup_or_empty_def map_at_def
      split: option.splits)

lemmas example_defs = example_robot_def state_units_def joint_store_def lookup_or_empty_def dofs_def
  check_phase_def check_phase_sensor_def check_phase_planner_def check_phase_controller_def
  increment_phase_def state_ref_def state_assign_def map_at_def std_map_at_def

subsection \<open>Phase transitions\<close>

text \<open>
  Claim C1, as the code has it. A \<^verbatim>\<open>load_goal\<close> write in PERCEPTION is accepted:
  \<^verbatim>\<open>check_phase\<close> moves the phase to CONTROL. For every unit and phase, \<^verbatim>\<open>check_phase\<close>
  does this: on a planner-class unit it passes in PLANNING, INITIALIZATION and WAITING,
  moves PERCEPTION to PLANNING, and throws in CONTROL; on a controller-class unit it passes
  in CONTROL, INITIALIZATION and WAITING, and moves PLANNING and PERCEPTION to CONTROL, so
  that it throws in none of the five phases; on a sensor-class unit it passes in
  PERCEPTION, INITIALIZATION and WAITING and throws otherwise; on \<^verbatim>\<open>initialization\<close>
  and \<^verbatim>\<open>clean_up\<close> it passes in INITIALIZATION and WAITING and throws otherwise.
  \<^verbatim>\<open>increment_phase(INCREMENT)\<close> makes the four steps INITIALIZATION to PERCEPTION,
  PERCEPTION to PLANNING, PLANNING to CONTROL, CONTROL to WAITING, all of the table of
  section 4.1, and throws in WAITING; \<^verbatim>\<open>reset_phase\<close> sets PERCEPTION, from WAITING as
  from any phase; with an explicit target, \<^verbatim>\<open>increment_phase\<close> sets that phase from any
  phase.
\<close>

theorem phase_machine_transitions:
  "check_phase load_goal (r\<lparr>controller_phase := PERCEPTION\<rparr>) = Inr (r\<lparr>controller_phase := CONTROL\<rparr>)
   \<and> (up \<in> {misc_planner, position_goal, velocity_goal, acceleration_goal} \<longrightarrow>
      check_phase up r =
        (if controller_phase r \<in> {PLANNING, INITIALIZATION, WAITING} then Inr r
         else if controller_phase r = PERCEPTION then Inr (r\<lparr>controller_phase := PLANNING\<rparr>)
         else Inl PhaseViolation))
   \<and> (uc \<in> {misc_controller, load_goal} \<longrightarrow>
      check_phase uc r =
        (if controller_phase r \<in> {CONTROL, INITIALIZATION, WAITING} then Inr r
         else if controller_phase r \<in> {PLANNING, PERCEPTION} then Inr (r\<lparr>controller_phase := CONTROL\<rparr>)
         else Inl PhaseViolation))
   \<and> (us \<in> {misc_sensor, position, velocity, acceleration, load} \<longrightarrow>
      check_phase us r =
        (if controller_phase r \<in> {PERCEPTION, INITIALIZATION, WAITING} then Inr r
         else Inl PhaseViolation))
   \<and> (ui \<in> {initialization, clean_up} \<longrightarrow>
      check_phase ui r =
        (if controller_phase r \<in> {INITIALIZATION, WAITING} then Inr r else Inl PhaseViolation))
   \<and> increment_phase INCREMENT r =
        (case controller_phase r of
           INITIALIZATION \<Rightarrow> Inr (r\<lparr>controller_phase := PERCEPTION\<rparr>)
         | PERCEPTION \<Rightarrow> Inr (r\<lparr>controller_phase := PLANNING\<rparr>)
         | PLANNING \<Rightarrow> Inr (r\<lparr>controller_phase := CONTROL\<rparr>)
         | CONTROL \<Rightarrow> Inr (r\<lparr>controller_phase := WAITING\<rparr>)
         | WAITING \<Rightarrow> Inl IncrementWaiting
         | INCREMENT \<Rightarrow> Inl InvalidPhase)
   \<and> (increment_phase INCREMENT r = Inr r' \<longrightarrow>
        listed_transition (controller_phase r) (controller_phase r'))
   \<and> reset_phase r = r\<lparr>controller_phase := PERCEPTION\<rparr>
   \<and> (p \<noteq> INCREMENT \<longrightarrow> increment_phase p r = Inr (r\<lparr>controller_phase := p\<rparr>))"
proof -
  have l: "check_phase load_goal (r\<lparr>controller_phase := PERCEPTION\<rparr>) = Inr (r\<lparr>controller_phase := CONTROL\<rparr>)"
    by (simp add: check_phase_def check_phase_controller_def increment_phase_def)
  have a: "up \<in> {misc_planner, position_goal, velocity_goal, acceleration_goal} \<longrightarrow>
      check_phase up r =
        (if controller_phase r \<in> {PLANNING, INITIALIZATION, WAITING} then Inr r
         else if controller_phase r = PERCEPTION then Inr (r\<lparr>controller_phase := PLANNING\<rparr>)
         else Inl PhaseViolation)"
    by (auto simp: check_phase_def check_phase_planner_def increment_phase_def)
  have b: "uc \<in> {misc_controller, load_goal} \<longrightarrow>
      check_phase uc r =
        (if controller_phase r \<in> {CONTROL, INITIALIZATION, WAITING} then Inr r
         else if controller_phase r \<in> {PLANNING, PERCEPTION} then Inr (r\<lparr>controller_phase := CONTROL\<rparr>)
         else Inl PhaseViolation)"
    by (auto simp: check_phase_def check_phase_controller_def increment_phase_def)
  have c: "us \<in> {misc_sensor, position, velocity, acceleration, load} \<longrightarrow>
      check_phase us r =
        (if controller_phase r \<in> {PERCEPTION, INITIALIZATION, WAITING} then Inr r
         else Inl PhaseViolation)"
    by (auto simp: check_phase_def check_phase_sensor_def)
  have d: "ui \<in> {initialization, clean_up} \<longrightarrow>
      check_phase ui r =
        (if controller_phase r \<in> {INITIALIZATION, WAITING} then Inr r else Inl PhaseViolation)"
    by (auto simp: check_phase_def)
  have e: "increment_phase INCREMENT r =
        (case controller_phase r of
           INITIALIZATION \<Rightarrow> Inr (r\<lparr>controller_phase := PERCEPTION\<rparr>)
         | PERCEPTION \<Rightarrow> Inr (r\<lparr>controller_phase := PLANNING\<rparr>)
         | PLANNING \<Rightarrow> Inr (r\<lparr>controller_phase := CONTROL\<rparr>)
         | CONTROL \<Rightarrow> Inr (r\<lparr>controller_phase := WAITING\<rparr>)
         | WAITING \<Rightarrow> Inl IncrementWaiting
         | INCREMENT \<Rightarrow> Inl InvalidPhase)"
    by (simp add: increment_phase_def split: ControllerPhase.splits)
  have f: "increment_phase INCREMENT r = Inr r' \<longrightarrow>
        listed_transition (controller_phase r) (controller_phase r')"
    by (cases "controller_phase r") (auto simp: increment_phase_def listed_transition_def)
  have g: "reset_phase r = r\<lparr>controller_phase := PERCEPTION\<rparr>"
    by (simp add: reset_phase_def)
  have h: "p \<noteq> INCREMENT \<longrightarrow> increment_phase p r = Inr (r\<lparr>controller_phase := p\<rparr>)"
    by (simp add: increment_phase_def)
  from l a b c d e f g h show ?thesis by blast
qed

text \<open>
  The theorem at the example robot in PERCEPTION: a goal write moves it to PLANNING, a
  \<^verbatim>\<open>load_goal\<close> write to CONTROL, a measured write and an increment are as listed, and
  \<^verbatim>\<open>clean_up\<close> is refused.
\<close>

theorem phase_machine_transitions_witness:
  "position_goal \<in> {misc_planner, position_goal, velocity_goal, acceleration_goal}
   \<and> load_goal \<in> {misc_controller, load_goal}
   \<and> position \<in> {misc_sensor, position, velocity, acceleration, load}
   \<and> clean_up \<in> {initialization, clean_up}
   \<and> CONTROL \<noteq> INCREMENT
   \<and> check_phase position_goal (example_robot PERCEPTION) = Inr (example_robot PLANNING)
   \<and> check_phase load_goal (example_robot PERCEPTION) = Inr (example_robot CONTROL)
   \<and> check_phase position (example_robot PERCEPTION) = Inr (example_robot PERCEPTION)
   \<and> check_phase clean_up (example_robot PERCEPTION) = Inl PhaseViolation
   \<and> increment_phase INCREMENT (example_robot PERCEPTION) = Inr (example_robot PLANNING)
   \<and> listed_transition PERCEPTION PLANNING
   \<and> increment_phase CONTROL (example_robot PERCEPTION) = Inr (example_robot CONTROL)"
  using phase_machine_transitions[where r = "example_robot PERCEPTION" and up = position_goal
      and uc = load_goal and us = position and ui = clean_up and r' = "example_robot PLANNING"
      and p = CONTROL]
  by (simp add: example_robot_def)

text \<open>
  Claim C1 as stated fails: with the example robot in PERCEPTION, writing \<^verbatim>\<open>load_goal\<close>
  returns normally and leaves the controller in CONTROL, a transition that the table of
  section 4.1 does not list.
\<close>

theorem load_goal_write_in_perception_counterexample:
  "map_sum id controller_phase
     (set_joint_value ''LF_HIP_AA'' load_goal [5] (example_robot PERCEPTION)) = Inr CONTROL
   \<and> \<not> listed_transition PERCEPTION CONTROL"
  by (simp add: set_joint_value_def example_defs listed_transition_def)

subsection \<open>The phase gate of joint writes\<close>















subsection \<open>Round trip of generalized joint vectors\<close>

lemma copy_from_generalized_inv:
  assumes "\<forall>j\<in>set js. j < length dof \<and> j < length dof_val \<and> 0 \<le> dof ! j \<and> nat (dof ! j) < length g"
  shows "\<exists>dv. copy_from_generalized g dof js dof_val = Inr dv \<and> length dv = length dof_val
           \<and> (\<forall>j<length dof_val. dv ! j = (if j \<in> set js then g ! nat (dof ! j) else dof_val ! j))"
  using assms
proof (induction js arbitrary: dof_val)
  case Nil
  then show ?case by simp
next
  case (Cons j js)
  let ?dv = "dof_val[j := g ! nat (dof ! j)]"
  have g: "vec_get g (dof ! j) = Inr (g ! nat (dof ! j))"
    using Cons.prems by (simp add: vec_get_def)
  have "\<forall>i\<in>set js. i < length dof \<and> i < length ?dv \<and> 0 \<le> dof ! i \<and> nat (dof ! i) < length g"
    using Cons.prems by simp
  from Cons.IH[OF this] obtain dv where dv:
    "copy_from_generalized g dof js ?dv = Inr dv" "length dv = length ?dv"
    "\<forall>i<length ?dv. dv ! i = (if i \<in> set js then g ! nat (dof ! i) else ?dv ! i)"
    by blast
  have "\<forall>i<length dof_val. dv ! i = (if i \<in> set (j # js) then g ! nat (dof ! i) else dof_val ! i)"
    using dv(3) by (auto simp: nth_list_update)
  then show ?case using g dv(1,2) by simp
qed

lemma copy_from_generalized_all:
  assumes "length dof_val = length dof" and "\<forall>d\<in>set dof. 0 \<le> d \<and> nat d < length g"
  shows "copy_from_generalized g dof [0..<length dof] dof_val = Inr (map (\<lambda>d. g ! nat d) dof)"
proof -
  have "\<forall>j\<in>set [0..<length dof]. j < length dof \<and> j < length dof_val \<and> 0 \<le> dof ! j \<and> nat (dof ! j) < length g"
    using assms by simp
  from copy_from_generalized_inv[OF this] obtain dv where dv:
    "copy_from_generalized g dof [0..<length dof] dof_val = Inr dv" "length dv = length dof_val"
    "\<forall>j<length dof_val. dv ! j = (if j \<in> set [0..<length dof] then g ! nat (dof ! j) else dof_val ! j)"
    by blast
  have "dv = map (\<lambda>d. g ! nat d) dof"
    using dv(2,3) assms(1) by (intro nth_equalityI) simp_all
  with dv(1) show ?thesis by simp
qed

lemma copy_to_generalized_inv:
  assumes "\<forall>j\<in>set js. j < length dof \<and> 0 \<le> dof ! j \<and> nat (dof ! j) < length g
                     \<and> val ! j = v ! nat (dof ! j)"
  shows "\<exists>g'. copy_to_generalized g dof js val = Inr g' \<and> length g' = length g
           \<and> (\<forall>c<length g. g' ! c = (if c \<in> (\<lambda>j. nat (dof ! j)) ` set js then v ! c else g ! c))"
  using assms
proof (induction js arbitrary: g)
  case Nil
  then show ?case by simp
next
  case (Cons j js)
  let ?g1 = "g[nat (dof ! j) := val ! j]"
  have s: "vec_set g (dof ! j) (val ! j) = Inr ?g1" and jl: "j < length dof"
    using Cons.prems by (simp_all add: vec_set_def)
  have "\<forall>i\<in>set js. i < length dof \<and> 0 \<le> dof ! i \<and> nat (dof ! i) < length ?g1
                     \<and> val ! i = v ! nat (dof ! i)"
    using Cons.prems by simp
  from Cons.IH[OF this] obtain g' where g':
    "copy_to_generalized ?g1 dof js val = Inr g'" "length g' = length ?g1"
    "\<forall>c<length ?g1. g' ! c = (if c \<in> (\<lambda>j. nat (dof ! j)) ` set js then v ! c else ?g1 ! c)"
    by blast
  have "\<forall>c<length g. g' ! c = (if c \<in> (\<lambda>j. nat (dof ! j)) ` set (j # js) then v ! c else g ! c)"
    using g'(3) Cons.prems by (auto simp: nth_list_update)
  then show ?case using s jl g'(1,2) by simp
qed

lemma get_joints_inv:
  assumes "\<forall>(k, val)\<in>set es. \<forall>j<length val.
              j < length (lookup_or_empty dmap k) \<and> 0 \<le> lookup_or_empty dmap k ! j
            \<and> nat (lookup_or_empty dmap k ! j) < length g
            \<and> val ! j = v ! nat (lookup_or_empty dmap k ! j)"
  shows "\<exists>g' dmap'. get_joints es g dmap = Inr (g', dmap') \<and> length g' = length g
           \<and> lookup_or_empty dmap' = lookup_or_empty dmap
           \<and> (\<forall>c<length g. g' ! c =
                 (if \<exists>(k, val)\<in>set es. \<exists>j<length val. nat (lookup_or_empty dmap k ! j) = c
                  then v ! c else g ! c))"
  using assms
proof (induction es arbitrary: g dmap)
  case Nil
  then show ?case by simp
next
  case (Cons e es)
  obtain k val where e: "e = (k, val)" by (cases e)
  obtain dof dmap1 where ma: "map_at k [] dmap = (dof, dmap1)" by (cases "map_at k [] dmap")
  then have dof: "lookup_or_empty dmap k = dof" and dm1: "lookup_or_empty dmap1 = lookup_or_empty dmap"
    using fst_map_at_empty[of k dmap] lookup_or_empty_map_at[of k dmap] by simp_all
  have "\<forall>j\<in>set [0..<length val]. j < length dof \<and> 0 \<le> dof ! j \<and> nat (dof ! j) < length g
                     \<and> val ! j = v ! nat (dof ! j)"
    using Cons.prems by (simp add: e dof)
  from copy_to_generalized_inv[OF this] obtain g1 where g1:
    "copy_to_generalized g dof [0..<length val] val = Inr g1" "length g1 = length g"
    "\<forall>c<length g. g1 ! c = (if c \<in> (\<lambda>j. nat (dof ! j)) ` set [0..<length val] then v ! c else g ! c)"
    by blast
  have "\<forall>(k, val)\<in>set es. \<forall>j<length val.
              j < length (lookup_or_empty dmap1 k) \<and> 0 \<le> lookup_or_empty dmap1 k ! j
            \<and> nat (lookup_or_empty dmap1 k ! j) < length g1
            \<and> val ! j = v ! nat (lookup_or_empty dmap1 k ! j)"
    using Cons.prems by (simp add: dm1 g1(2))
  from Cons.IH[OF this] obtain g' dmap' where r:
    "get_joints es g1 dmap1 = Inr (g', dmap')" "length g' = length g1"
    "lookup_or_empty dmap' = lookup_or_empty dmap1"
    "\<forall>c<length g1. g' ! c =
        (if \<exists>(k, val)\<in>set es. \<exists>j<length val. nat (lookup_or_empty dmap1 k ! j) = c
         then v ! c else g1 ! c)"
    by blast
  have "g' ! c =
        (if \<exists>(k, val)\<in>set (e # es). \<exists>j<length val. nat (lookup_or_empty dmap k ! j) = c
         then v ! c else g ! c)" if c: "c < length g" for c
  proof (cases "\<exists>(k, val)\<in>set es. \<exists>j<length val. nat (lookup_or_empty dmap k ! j) = c")
    case True
    then show ?thesis using r(4) c g1(2) by (auto simp: dm1)
  next
    case False
    then have "g' ! c = g1 ! c" using r(4) c g1(2) by (auto simp: dm1)
    moreover have "g1 ! c = (if c \<in> (\<lambda>j. nat (dof ! j)) ` set [0..<length val] then v ! c else g ! c)"
      using g1(3) c by simp
    moreover have "(c \<in> (\<lambda>j. nat (dof ! j)) ` set [0..<length val])
                    = (\<exists>j<length val. nat (lookup_or_empty dmap k ! j) = c)"
      by (auto simp: dof)
    ultimately show ?thesis using False by (auto simp: e)
  qed
  then show ?case using ma g1(1,2) r(1,2,3) dm1 by (simp add: e)
qed

lemma set_joints_inv:
  assumes "sorted_wrt (<) (map fst (joint_store u r))"
    and "\<forall>k\<in>set ks. length (lookup_or_empty (map_of (joint_store u r)) k) = length (dofs r k)
                   \<and> (\<forall>d\<in>set (dofs r k). 0 \<le> d \<and> nat d < length g)"
  shows "\<exists>r'. set_joints u g ks r = Inr r'
           \<and> sorted_wrt (<) (map fst (joint_store u r'))
           \<and> (\<forall>k. map_of (joint_store u r') k =
                    (if k \<in> set ks then Some (map (\<lambda>d. g ! nat d) (dofs r k))
                     else map_of (joint_store u r) k))
           \<and> dofs r' = dofs r \<and> NUM_JOINT_DOFS r' = NUM_JOINT_DOFS r"
  using assms
proof (induction ks arbitrary: r)
  case Nil
  then show ?case by simp
next
  case (Cons k ks)
  obtain dof dmap where ma: "map_at k [] (id_dof_coord_map r) = (dof, dmap)"
    by (cases "map_at k [] (id_dof_coord_map r)")
  let ?r1 = "r\<lparr>id_dof_coord_map := dmap\<rparr>"
  have dof: "dof = dofs r k" and d1: "dofs ?r1 = dofs r"
    using ma fst_map_at_empty[of k "id_dof_coord_map r"]
      lookup_or_empty_map_at[of k "id_dof_coord_map r"]
    by (auto simp: dofs_def fun_eq_iff)
  have js1: "joint_store u ?r1 = joint_store u r" by (simp add: joint_store_def)
  obtain dof_val r2 where sr: "state_ref u k ?r1 = (dof_val, r2)" by (cases "state_ref u k ?r1")
  have dv: "dof_val = lookup_or_empty (map_of (joint_store u r)) k"
    using state_ref_fst[of u k ?r1] sr js1 by simp
  have r2: "joint_store u r2 = (case map_of (joint_store u r) k of
        None \<Rightarrow> std_map_assign k [] (joint_store u r)
      | Some _ \<Rightarrow> joint_store u r)"
    "id_dof_coord_map r2 = dmap" "NUM_JOINT_DOFS r2 = NUM_JOINT_DOFS r"
    using state_ref_snd[of u k ?r1] sr by (simp_all add: js1 cong: option.case_cong)
  have len: "length dof_val = length dof" and rng: "\<forall>d\<in>set dof. 0 \<le> d \<and> nat d < length g"
    using Cons.prems(2) by (simp_all add: dv dof)
  let ?v = "map (\<lambda>d. g ! nat d) dof"
  have cp: "copy_from_generalized g dof [0..<length dof] dof_val = Inr ?v"
    using copy_from_generalized_all[OF len rng] .
  let ?r3 = "state_assign u k ?v r2"
  have s3: "joint_store u ?r3 = std_map_assign k ?v (joint_store u r2)"
    and n3: "NUM_JOINT_DOFS ?r3 = NUM_JOINT_DOFS r"
    using state_assign_simps[of u k ?v r2] r2 by simp_all
  have "id_dof_coord_map ?r3 = id_dof_coord_map ?r1"
    using state_assign_simps(2)[of u k ?v r2] r2(2) by simp
  then have "dofs ?r3 = dofs ?r1"
    unfolding dofs_def by (rule arg_cong)
  then have d3: "dofs ?r3 = dofs r" using d1 by simp
  have sorted2: "sorted_wrt (<) (map fst (joint_store u r2))"
    using Cons.prems(1) r2(1) sorted_std_map_assign by (auto split: option.splits)
  have sorted3: "sorted_wrt (<) (map fst (joint_store u ?r3))"
    using sorted2 s3 sorted_std_map_assign by auto
  have mo3: "map_of (joint_store u ?r3) = (map_of (joint_store u r))(k \<mapsto> ?v)"
    using s3 r2(1) by (auto simp: map_of_std_map_assign split: option.splits)
  have pre: "\<forall>k'\<in>set ks. length (lookup_or_empty (map_of (joint_store u ?r3)) k') = length (dofs ?r3 k')
                   \<and> (\<forall>d\<in>set (dofs ?r3 k'). 0 \<le> d \<and> nat d < length g)"
    unfolding mo3 d3 using Cons.prems(2) by (auto simp: lookup_or_empty_def dof[symmetric])
  from Cons.IH[OF sorted3 pre] obtain r' where r':
    "set_joints u g ks ?r3 = Inr r'" "sorted_wrt (<) (map fst (joint_store u r'))"
    "\<forall>k'. map_of (joint_store u r') k' =
                    (if k' \<in> set ks then Some (map (\<lambda>d. g ! nat d) (dofs ?r3 k'))
                     else map_of (joint_store u ?r3) k')"
    "dofs r' = dofs ?r3" "NUM_JOINT_DOFS r' = NUM_JOINT_DOFS ?r3"
    by blast
  have step: "set_joints u g (k # ks) r = set_joints u g ks ?r3"
    using ma sr len cp by simp
  have "\<forall>k'. map_of (joint_store u r') k' =
                    (if k' \<in> set (k # ks) then Some (map (\<lambda>d. g ! nat d) (dofs r k'))
                     else map_of (joint_store u r) k')"
    using r'(3) unfolding mo3 d3 by (auto simp: dof[symmetric])
  then show ?case using step r'(1,2,4,5) d3 n3 by auto
qed

text \<open>
  Claim C7, for a write that the phase check accepts. When the joint store of unit
  \<^verbatim>\<open>u\<close> is in order (\<open>joint_store_ok\<close>) and \<^verbatim>\<open>v\<close> has \<^verbatim>\<open>NUM_JOINT_DOFS\<close> elements,
  \<^verbatim>\<open>set_joint_generalized_value(u, v)\<close> succeeds and \<^verbatim>\<open>get_joint_generalized_value(u)\<close>
  then returns \<^verbatim>\<open>v\<close>; the elements are only copied, whatever their type.
\<close>

theorem joint_generalized_roundtrip:
  assumes ok: "joint_store_ok u r" and len: "length v = NUM_JOINT_DOFS r"
    and ph: "check_phase u r \<noteq> Inl PhaseViolation"
  shows "set_then_get u v r = Inr v"
proof -
  from check_phase_cases[of u r] ph obtain r1 where cp: "check_phase u r = Inr r1" by auto
  note f1 = check_phase_fields[OF cp]
  have js1: "joint_store u r1 = joint_store u r" and d1: "dofs r1 = dofs r"
    by (simp_all add: joint_store_def dofs_def f1 fun_eq_iff)
  have sorted: "sorted_wrt (<) (map fst (joint_store u r))"
    and sized: "\<forall>k\<in>set (joint_ids r). length (lookup_or_empty (map_of (joint_store u r)) k) = length (dofs r k)
                   \<and> (\<forall>d\<in>set (dofs r k). 0 \<le> d \<and> d < int (NUM_JOINT_DOFS r))"
    and other: "\<forall>(k, val)\<in>set (joint_store u r). k \<in> set (joint_ids r) \<or> val = []"
    and cover: "\<forall>c<NUM_JOINT_DOFS r. \<exists>k\<in>set (joint_ids r). int c \<in> set (dofs r k)"
    using ok by (auto simp: joint_store_ok_def list_all_iff list_ex_iff)
  have pre: "\<forall>k\<in>set (joint_ids r). length (lookup_or_empty (map_of (joint_store u r1)) k) = length (dofs r1 k)
                   \<and> (\<forall>d\<in>set (dofs r1 k). 0 \<le> d \<and> nat d < length v)"
    using sized by (fastforce simp: js1 d1 len)
  from set_joints_inv[of u r1 "joint_ids r" v] sorted pre obtain r2 where r2:
    "set_joints u v (joint_ids r) r1 = Inr r2" "sorted_wrt (<) (map fst (joint_store u r2))"
    "\<forall>k. map_of (joint_store u r2) k =
                    (if k \<in> set (joint_ids r) then Some (map (\<lambda>d. v ! nat d) (dofs r k))
                     else map_of (joint_store u r) k)"
    "dofs r2 = dofs r" "NUM_JOINT_DOFS r2 = NUM_JOINT_DOFS r"
    by (auto simp: js1 d1 f1)
  have set: "set_joint_generalized_value u v r = Inr r2"
    using cp r2(1) by (simp add: set_joint_generalized_value_def f1 len)
  let ?es = "joint_store u r2"
  let ?dm = "id_dof_coord_map r2"
  have lk: "lookup_or_empty ?dm = dofs r" using r2(4) by (simp add: dofs_def fun_eq_iff)
  have dist: "distinct (map fst ?es)"
    using r2(2) by (simp add: strict_sorted_iff)
  have entry: "val = (if k \<in> set (joint_ids r) then map (\<lambda>d. v ! nat d) (dofs r k) else [])"
    if "(k, val) \<in> set ?es" for k val
  proof -
    from that dist have mo: "map_of ?es k = Some val" by simp
    show ?thesis
    proof (cases "k \<in> set (joint_ids r)")
      case True
      then show ?thesis using mo r2(3) by simp
    next
      case False
      then have "map_of (joint_store u r) k = Some val" using mo r2(3) by simp
      then have "(k, val) \<in> set (joint_store u r)" by (rule map_of_SomeD)
      then show ?thesis using other False by auto
    qed
  qed
  have hyp: "\<forall>(k, val)\<in>set ?es. \<forall>j<length val.
              j < length (lookup_or_empty ?dm k) \<and> 0 \<le> lookup_or_empty ?dm k ! j
            \<and> nat (lookup_or_empty ?dm k ! j) < length (replicate (NUM_JOINT_DOFS r) (0::'a))
            \<and> val ! j = v ! nat (lookup_or_empty ?dm k ! j)"
  proof (intro ballI, clarify)
    fix k val j assume kv: "(k, val) \<in> set ?es" and j: "j < length val"
    from entry[OF kv] j have kin: "k \<in> set (joint_ids r)" and val: "val = map (\<lambda>d. v ! nat d) (dofs r k)"
      by (auto split: if_splits)
    from val j have jl: "j < length (dofs r k)" by simp
    then have "dofs r k ! j \<in> set (dofs r k)" by simp
    with sized kin have "0 \<le> dofs r k ! j \<and> dofs r k ! j < int (NUM_JOINT_DOFS r)" by blast
    then show "j < length (lookup_or_empty ?dm k) \<and> 0 \<le> lookup_or_empty ?dm k ! j
            \<and> nat (lookup_or_empty ?dm k ! j) < length (replicate (NUM_JOINT_DOFS r) (0::'a))
            \<and> val ! j = v ! nat (lookup_or_empty ?dm k ! j)"
      using jl val by (simp add: lk nat_less_iff)
  qed
  from get_joints_inv[OF hyp] obtain g' dmap' where g':
    "get_joints ?es (replicate (NUM_JOINT_DOFS r) 0) ?dm = Inr (g', dmap')"
    "length g' = NUM_JOINT_DOFS r"
    "\<forall>c<NUM_JOINT_DOFS r. g' ! c =
         (if \<exists>(k, val)\<in>set ?es. \<exists>j<length val. nat (lookup_or_empty ?dm k ! j) = c
          then v ! c else replicate (NUM_JOINT_DOFS r) 0 ! c)"
    by auto
  have "g' ! c = v ! c" if c: "c < NUM_JOINT_DOFS r" for c
  proof -
    from cover c obtain k where k: "k \<in> set (joint_ids r)" "int c \<in> set (dofs r k)" by blast
    then obtain j where j: "j < length (dofs r k)" "dofs r k ! j = int c"
      by (auto simp: in_set_conv_nth)
    let ?val = "map (\<lambda>d. v ! nat d) (dofs r k)"
    have "map_of ?es k = Some ?val" using r2(3) k(1) by simp
    then have "(k, ?val) \<in> set ?es" by (rule map_of_SomeD)
    moreover have "j < length ?val" "nat (lookup_or_empty ?dm k ! j) = c"
      using j by (simp_all add: lk)
    ultimately have "\<exists>(k, val)\<in>set ?es. \<exists>j<length val. nat (lookup_or_empty ?dm k ! j) = c"
      by blast
    then show ?thesis using g'(3) c by simp
  qed
  then have gv: "g' = v" using g'(2) len by (intro nth_equalityI) simp_all
  have inner: "fst (map_at u [] (state r2)) = ?es"
    by (simp add: fst_map_at_empty joint_store_def)
  have "map_sum id fst (get_joint_generalized_value u r2) = Inr v"
    using g'(1) gv inner r2(5)
    by (auto simp: get_joint_generalized_value_def split: prod.splits)
  then show ?thesis using set by (simp add: set_then_get_def)
qed

text \<open>
  The theorem at the example robot in PERCEPTION, unit \<^verbatim>\<open>position\<close>.
\<close>

theorem joint_generalized_roundtrip_witness:
  "joint_store_ok position (example_robot PERCEPTION)
   \<and> length [3, 4 :: real] = NUM_JOINT_DOFS (example_robot PERCEPTION)
   \<and> check_phase position (example_robot PERCEPTION) \<noteq> Inl PhaseViolation
   \<and> set_then_get position [3, 4] (example_robot PERCEPTION) = Inr [3, 4]"
  using joint_generalized_roundtrip[of position "example_robot PERCEPTION" "[3, 4]"]
  by (simp add: example_defs joint_store_ok_def eval_nat_numeral)

text \<open>
  Claim C7 as stated fails for a unit that the phase excludes: in CONTROL the write of
  \<^verbatim>\<open>position\<close> throws, although the store is in order and the vector has the right
  length.
\<close>

theorem joint_generalized_roundtrip_counterexample:
  "joint_store_ok position (example_robot CONTROL)
   \<and> length [3, 4 :: real] = NUM_JOINT_DOFS (example_robot CONTROL)
   \<and> set_then_get position [3, 4] (example_robot CONTROL) = Inl PhaseViolation"
  by (simp add: example_defs joint_store_ok_def set_then_get_def set_joint_generalized_value_def
      eval_nat_numeral)

subsection \<open>Contacts\<close>

lemma collect_contacts_eq:
  "fst (collect_contacts ls acc m) = acc @ concat (map (lookup_or_empty m) ls)"
proof (induction ls arbitrary: acc m)
  case Nil
  then show ?case by simp
next
  case (Cons l ls)
  obtain c m' where ma: "map_at l [] m = (c, m')" by (cases "map_at l [] m")
  then have c: "c = lookup_or_empty m l" and m': "lookup_or_empty m' = lookup_or_empty m"
    using fst_map_at_empty[of l m] lookup_or_empty_map_at[of l m] by simp_all
  show ?case using Cons.IH[of "acc @ c" m'] by (simp add: ma c m')
qed

lemma mset_filter_split:
  "l \<notin> set ls \<Longrightarrow>
   mset (filter (\<lambda>c. f c = l) cs) + mset (filter (\<lambda>c. f c \<in> set ls) cs)
   = mset (filter (\<lambda>c. f c = l \<or> f c \<in> set ls) cs)"
  by (induction cs) auto

lemma mset_concat_filter:
  "distinct ls \<Longrightarrow>
   mset (concat (map (\<lambda>l. filter (\<lambda>c. f c = l) cs) ls)) = mset (filter (\<lambda>c. f c \<in> set ls) cs)"
proof (induction ls)
  case Nil
  then show ?case by simp
next
  case (Cons l ls)
  then show ?case using mset_filter_split[of l ls f cs] by simp
qed

lemma add_contact_ok:
  assumes "controller_phase r = WAITING \<or> controller_phase r = INITIALIZATION
           \<or> controller_phase r = PERCEPTION"
  shows "add_contact c r =
         Inr (r\<lparr>id_contacts_map := (id_contacts_map r)(id_c c \<mapsto> lookup_or_empty (id_contacts_map r) (id_c c) @ [c])\<rparr>)"
  using assms
  by (auto simp: add_contact_def check_phase_def check_phase_sensor_def map_at_def lookup_or_empty_def
      split: option.splits)

lemma add_contacts_ok:
  assumes "controller_phase r = WAITING \<or> controller_phase r = INITIALIZATION
           \<or> controller_phase r = PERCEPTION"
  shows "\<exists>r'. add_contacts cs r = Inr r' \<and> controller_phase r' = controller_phase r
            \<and> link_ids r' = link_ids r
            \<and> (\<forall>l. lookup_or_empty (id_contacts_map r') l
                   = lookup_or_empty (id_contacts_map r) l @ filter (\<lambda>c. id_c c = l) cs)
            \<and> dom (id_contacts_map r') = dom (id_contacts_map r) \<union> id_c ` set cs"
  using assms
proof (induction cs arbitrary: r)
  case Nil
  then show ?case by simp
next
  case (Cons c cs)
  let ?r1 = "r\<lparr>id_contacts_map := (id_contacts_map r)(id_c c \<mapsto> lookup_or_empty (id_contacts_map r) (id_c c) @ [c])\<rparr>"
  have a: "add_contact c r = Inr ?r1" using Cons.prems by (rule add_contact_ok)
  have ph: "controller_phase ?r1 = WAITING \<or> controller_phase ?r1 = INITIALIZATION
           \<or> controller_phase ?r1 = PERCEPTION" using Cons.prems by auto
  from Cons.IH[OF ph] obtain r' where r':
    "add_contacts cs ?r1 = Inr r'" "controller_phase r' = controller_phase ?r1"
    "link_ids r' = link_ids ?r1"
    "\<forall>l. lookup_or_empty (id_contacts_map r') l
                   = lookup_or_empty (id_contacts_map ?r1) l @ filter (\<lambda>c. id_c c = l) cs"
    "dom (id_contacts_map r') = dom (id_contacts_map ?r1) \<union> id_c ` set cs"
    by blast
  have "\<forall>l. lookup_or_empty (id_contacts_map r') l
                   = lookup_or_empty (id_contacts_map r) l @ filter (\<lambda>x. id_c x = l) (c # cs)"
    using r'(4) by (auto simp: lookup_or_empty_def)
  moreover have "dom (id_contacts_map r') = dom (id_contacts_map r) \<union> id_c ` set (c # cs)"
    using r'(5) by auto
  ultimately show ?case using a r'(1,2,3) by simp
qed

lemma add_contact_new_eq:
  "add_contact_new (id_c a) (point a) (normal a) (tangent a) (impulse a)
     (mu_coulomb a) (mu_viscous a) (restitution a) (compliant a) r = add_contact a r"
proof -
  have c: "create_contact (id_c a) (point a) (normal a) (tangent a) (impulse a)
          (mu_coulomb a) (mu_viscous a) (restitution a) (compliant a) = a"
    by (simp add: create_contact_def)
  show ?thesis unfolding add_contact_new_def add_contact_def c by (rule refl)
qed

lemma add_contacts_new_eq: "add_contacts_new cs r = add_contacts cs r"
  by (induction cs arbitrary: r) (simp_all add: add_contact_new_eq split: sum.splits)

text \<open>
  Claim C8, as the code has it. In a phase where \<^verbatim>\<open>reset_contact\<close> is legal (WAITING or
  INITIALIZATION) it empties the contact map. Adding the contacts \<open>cs\<close> then succeeds,
  through either overload of \<^verbatim>\<open>add_contact\<close> with the same result, and \<^verbatim>\<open>get_contacts\<close>
  holds, under each id, exactly the added contacts with that id, in the order of
  addition, and nothing under any other id. \<^verbatim>\<open>get_all_contacts\<close> on an empty vector
  returns, for each entry of \<^verbatim>\<open>_link_ids\<close> in turn, the contacts added under that id,
  and their number. These are the added contacts, each once, when every contact lies on
  a link of \<^verbatim>\<open>_link_ids\<close> and no link is listed twice.
\<close>

theorem contacts_reset_add_read:
  assumes "controller_phase r = WAITING \<or> controller_phase r = INITIALIZATION"
  shows "reset_contact r = Inr (r\<lparr>id_contacts_map := Map.empty\<rparr>)
     \<and> get_contacts (r\<lparr>id_contacts_map := Map.empty\<rparr>) = Map.empty
     \<and> add_contacts_new cs (r\<lparr>id_contacts_map := Map.empty\<rparr>)
         = add_contacts cs (r\<lparr>id_contacts_map := Map.empty\<rparr>)
     \<and> (case add_contacts_new cs (r\<lparr>id_contacts_map := Map.empty\<rparr>) of
           Inl e \<Rightarrow> False
         | Inr r1 \<Rightarrow>
             (\<forall>l. get_contacts r1 l =
                    (if l \<in> id_c ` set cs then Some (filter (\<lambda>c. id_c c = l) cs) else None))
           \<and> fst (snd (get_all_contacts [] r1))
               = concat (map (\<lambda>l. filter (\<lambda>c. id_c c = l) cs) (link_ids r))
           \<and> fst (get_all_contacts [] r1)
               = int (length (concat (map (\<lambda>l. filter (\<lambda>c. id_c c = l) cs) (link_ids r))))
           \<and> (distinct (link_ids r) \<and> id_c ` set cs \<subseteq> set (link_ids r) \<longrightarrow>
                fst (get_all_contacts [] r1) = int (length cs)
              \<and> mset (fst (snd (get_all_contacts [] r1))) = mset cs))"
proof -
  let ?r0 = "r\<lparr>id_contacts_map := Map.empty\<rparr>"
  have 1: "reset_contact r = Inr ?r0"
    using assms by (auto simp: reset_contact_def check_phase_def)
  have ph: "controller_phase ?r0 = WAITING \<or> controller_phase ?r0 = INITIALIZATION
           \<or> controller_phase ?r0 = PERCEPTION" using assms by auto
  from add_contacts_ok[OF ph, of cs] obtain r1 where r1:
    "add_contacts cs ?r0 = Inr r1" "link_ids r1 = link_ids r"
    "\<forall>l. lookup_or_empty (id_contacts_map r1) l = filter (\<lambda>c. id_c c = l) cs"
    "dom (id_contacts_map r1) = id_c ` set cs"
    by (auto simp: lookup_or_empty_def)
  have new: "add_contacts_new cs ?r0 = Inr r1"
    using r1(1) by (simp add: add_contacts_new_eq)
  have get: "get_contacts r1 l =
                    (if l \<in> id_c ` set cs then Some (filter (\<lambda>c. id_c c = l) cs) else None)" for l
  proof (cases "id_contacts_map r1 l")
    case None
    then show ?thesis using r1(4) by (auto simp: get_contacts_def)
  next
    case (Some xs)
    then have "l \<in> id_c ` set cs" using r1(4) by blast
    moreover have "xs = filter (\<lambda>c. id_c c = l) cs"
      using r1(3) Some by (auto simp: lookup_or_empty_def split: option.splits)
    ultimately show ?thesis using Some by (simp add: get_contacts_def)
  qed
  have lc: "lookup_or_empty (id_contacts_map r1) = (\<lambda>l. filter (\<lambda>c. id_c c = l) cs)"
    using r1(3) by auto
  have xs: "fst (snd (get_all_contacts [] r1))
          = concat (map (\<lambda>l. filter (\<lambda>c. id_c c = l) cs) (link_ids r))"
    using collect_contacts_eq[of "link_ids r" "[]" "id_contacts_map r1"]
    by (auto simp: get_all_contacts_def r1(2) lc split: prod.splits)
  have "fst (get_all_contacts [] r1) = int (length (fst (snd (get_all_contacts [] r1))))"
    by (simp add: get_all_contacts_def split: prod.splits)
  then have n: "fst (get_all_contacts [] r1)
          = int (length (concat (map (\<lambda>l. filter (\<lambda>c. id_c c = l) cs) (link_ids r))))"
    by (simp only: xs)
  have all: "fst (get_all_contacts [] r1) = int (length cs)
              \<and> mset (fst (snd (get_all_contacts [] r1))) = mset cs"
    if d: "distinct (link_ids r)" and sub: "id_c ` set cs \<subseteq> set (link_ids r)"
  proof -
    have "filter (\<lambda>c. id_c c \<in> set (link_ids r)) cs = cs"
      using sub by (auto simp: filter_id_conv)
    then have m: "mset (fst (snd (get_all_contacts [] r1))) = mset cs"
      using mset_concat_filter[OF d, of id_c cs] xs by simp
    have "fst (get_all_contacts [] r1) = int (length (fst (snd (get_all_contacts [] r1))))"
      by (simp add: get_all_contacts_def split: prod.splits)
    also have "\<dots> = int (size (mset (fst (snd (get_all_contacts [] r1)))))" by simp
    also have "\<dots> = int (length cs)" by (simp only: m size_mset)
    finally show ?thesis using m by simp
  qed
  have 2: "get_contacts ?r0 = Map.empty" by (simp add: get_contacts_def)
  have 3: "add_contacts_new cs ?r0 = add_contacts cs ?r0" by (rule add_contacts_new_eq)
  have 4: "(\<forall>l. get_contacts r1 l =
                    (if l \<in> id_c ` set cs then Some (filter (\<lambda>c. id_c c = l) cs) else None))
           \<and> fst (snd (get_all_contacts [] r1))
               = concat (map (\<lambda>l. filter (\<lambda>c. id_c c = l) cs) (link_ids r))
           \<and> fst (get_all_contacts [] r1)
               = int (length (concat (map (\<lambda>l. filter (\<lambda>c. id_c c = l) cs) (link_ids r))))
           \<and> (distinct (link_ids r) \<and> id_c ` set cs \<subseteq> set (link_ids r) \<longrightarrow>
                fst (get_all_contacts [] r1) = int (length cs)
              \<and> mset (fst (snd (get_all_contacts [] r1))) = mset cs)"
    using get xs n all by blast
  show ?thesis
    apply (rule conjI, rule 1)
    apply (rule conjI, rule 2)
    apply (rule conjI, rule 3)
    apply (simp only: new sum.case)
    apply (rule 4)
    done
qed

text \<open>
  The theorem at the example robot in WAITING with three contacts on its two links.
\<close>

theorem contacts_reset_add_read_witness:
  "(controller_phase (example_robot WAITING) = WAITING
      \<or> controller_phase (example_robot WAITING) = INITIALIZATION)
   \<and> distinct (link_ids (example_robot WAITING))
   \<and> id_c ` set [example_contact ''RF_FOOT'' 1, example_contact ''LF_FOOT'' 2,
                   example_contact ''RF_FOOT'' 3] \<subseteq> set (link_ids (example_robot WAITING))
   \<and> succeeds (reset_contact (example_robot WAITING))
   \<and> (case add_contacts_new [example_contact ''RF_FOOT'' 1, example_contact ''LF_FOOT'' 2,
                              example_contact ''RF_FOOT'' 3]
              ((example_robot WAITING)\<lparr>id_contacts_map := Map.empty\<rparr>) of
         Inl e \<Rightarrow> False
       | Inr r1 \<Rightarrow>
           get_contacts r1 ''RF_FOOT'' = Some [example_contact ''RF_FOOT'' 1, example_contact ''RF_FOOT'' 3]
         \<and> get_contacts r1 ''LF_FOOT'' = Some [example_contact ''LF_FOOT'' 2]
         \<and> fst (snd (get_all_contacts [] r1))
             = [example_contact ''LF_FOOT'' 2, example_contact ''RF_FOOT'' 1, example_contact ''RF_FOOT'' 3]
         \<and> fst (get_all_contacts [] r1) = 3)"
proof -
  let ?cs = "[example_contact ''RF_FOOT'' 1, example_contact ''LF_FOOT'' 2,
              example_contact ''RF_FOOT'' 3]"
  have ph: "controller_phase (example_robot WAITING) = WAITING
      \<or> controller_phase (example_robot WAITING) = INITIALIZATION"
    by (simp add: example_robot_def)
  have l: "distinct (link_ids (example_robot WAITING))
           \<and> id_c ` set ?cs \<subseteq> set (link_ids (example_robot WAITING))"
    by (simp add: example_robot_def example_contact_def create_contact_def)
  have li: "link_ids (example_robot WAITING) = [''LF_FOOT'', ''RF_FOOT'']"
    by (simp add: example_robot_def)
  show ?thesis
    using contacts_reset_add_read[OF ph, of ?cs] ph l
    by (auto simp: succeeds_def li example_contact_def create_contact_def split: sum.splits)
qed

text \<open>
  Claim C8 as stated fails for \<^verbatim>\<open>get_all_contacts\<close>: after the reset, two contacts are
  added, one of them under an id that \<^verbatim>\<open>_link_ids\<close> does not list; \<^verbatim>\<open>get_contacts\<close>
  holds both, \<^verbatim>\<open>get_all_contacts\<close> returns one.
\<close>

theorem contacts_reset_add_read_counterexample:
  "reset_contact (example_robot WAITING) = Inr ((example_robot WAITING)\<lparr>id_contacts_map := Map.empty\<rparr>)
   \<and> (case add_contacts_new [example_contact ''RF_FOOT'' 1, example_contact ''TORSO'' 2]
              ((example_robot WAITING)\<lparr>id_contacts_map := Map.empty\<rparr>) of
         Inl e \<Rightarrow> False
       | Inr r1 \<Rightarrow>
           get_contacts r1 ''RF_FOOT'' = Some [example_contact ''RF_FOOT'' 1]
         \<and> get_contacts r1 ''TORSO'' = Some [example_contact ''TORSO'' 2]
         \<and> get_all_contacts [] r1
             = (1, [example_contact ''RF_FOOT'' 1],
                r1\<lparr>id_contacts_map := (id_contacts_map r1)(''LF_FOOT'' \<mapsto> [])\<rparr>))"
  by (simp add: reset_contact_def add_contact_new_def get_contacts_def get_all_contacts_def
      example_contact_def create_contact_def example_defs)

subsection \<open>Reading a joint that has no entry\<close>

text \<open>
  Claim C10. When \<^verbatim>\<open>_state[u]\<close> has no entry for the id (or there is no \<^verbatim>\<open>_state[u]\<close>),
  \<^verbatim>\<open>get_joint_value(id, u)\<close> returns the empty vector and leaves an empty entry behind, so
  the robot has changed; it has no way to fail. Reading one coordinate,
  \<^verbatim>\<open>get_joint_value(id, u, dof)\<close>, never fails on the key either. \<^verbatim>\<open>get_data\<close> of a
  missing key does fail on the key.
\<close>

theorem get_joint_value_default_inserts:
  assumes "joint_entry u i r = None"
  shows "fst (get_joint_value i u r) = []
       \<and> joint_entry u i (snd (get_joint_value i u r)) = Some []
       \<and> snd (get_joint_value i u r) \<noteq> r
       \<and> get_joint_value_dof i u dof r \<noteq> Inl KeyNotFound
       \<and> (data_map r n = None \<longrightarrow> get_data t n r = Inl KeyNotFound)"
proof -
  have 1: "fst (get_joint_value i u r) = []"
    using assms
    by (auto simp: get_joint_value_def state_ref_def map_at_def std_map_at_def joint_entry_def
        split: option.splits prod.splits)
  have 2: "joint_entry u i (snd (get_joint_value i u r)) = Some []"
    using assms
    by (auto simp: get_joint_value_def state_ref_def map_at_def std_map_at_def joint_entry_def
        map_of_std_map_assign split: option.splits prod.splits)
  from 2 assms have 3: "snd (get_joint_value i u r) \<noteq> r" by auto
  have 4: "get_joint_value_dof i u dof r \<noteq> Inl KeyNotFound"
    by (auto simp: get_joint_value_dof_def vec_get_def split: prod.splits sum.splits if_splits)
  have 5: "data_map r n = None \<longrightarrow> get_data t n r = Inl KeyNotFound"
    by (simp add: get_data_def)
  from 1 2 3 4 5 show ?thesis by blast
qed

text \<open>
  The theorem at the example robot, for a joint id that the store does not hold.
\<close>

theorem get_joint_value_default_inserts_witness:
  "joint_entry position ''RH_HIP_AA'' (example_robot PERCEPTION) = None
   \<and> data_map (example_robot PERCEPTION) ''gait'' = None
   \<and> fst (get_joint_value ''RH_HIP_AA'' position (example_robot PERCEPTION)) = []
   \<and> joint_entry position ''RH_HIP_AA''
        (snd (get_joint_value ''RH_HIP_AA'' position (example_robot PERCEPTION))) = Some []
   \<and> get_data TDouble ''gait'' (example_robot PERCEPTION) = Inl KeyNotFound"
  using get_joint_value_default_inserts[of position "''RH_HIP_AA''" "example_robot PERCEPTION" 0
      "''gait''" TDouble]
  by (simp add: joint_entry_def example_robot_def state_units_def)

section \<open>Properties of the control tick\<close>

text \<open>
  Claim C3, as the code has it. When the feedback torque \<^verbatim>\<open>ufb\<close> and the
  inverse-dynamics torque have one element per joint, \<^verbatim>\<open>Quadruped::control\<close> returns
  their element-wise sum: the command is \<^verbatim>\<open>ufb + uff\<close> as it stands, and the table of
  maximum torques does not enter.
\<close>

theorem control_returns_sum:
  assumes "length (pid_ufb ext) = NUM_JOINTS" and "length (idyn_id ext) = NUM_JOINTS"
  shows "control NUM_JOINTS ext = Inr (map2 (+) (pid_ufb ext) (idyn_id ext))"
proof -
  have "map2 (+) (replicate NUM_JOINTS (0::real)) (map (\<lambda>x. x * 1) (idyn_id ext)) = idyn_id ext"
    using assms(2) by (intro nth_equalityI) simp_all
  then show ?thesis
    using assms
    by (simp add: control_def TRUNK_STABILIZATION_def CONTROL_IDYN_def PARALLEL_STIFFNESS_def
        vec_plus_def vec_scale_def)
qed

text \<open>The theorem on twelve joints, with a feedback torque inside the limits.\<close>

theorem control_returns_sum_witness:
  "length (pid_ufb \<lparr>stabilizer_id = [], stiffness_ufb = [], pid_ufb = replicate 12 1, idyn_id = replicate 12 2\<rparr>) = 12
   \<and> length (idyn_id \<lparr>stabilizer_id = [], stiffness_ufb = [], pid_ufb = replicate 12 1, idyn_id = replicate 12 2\<rparr>) = 12
   \<and> control 12 \<lparr>stabilizer_id = [], stiffness_ufb = [], pid_ufb = replicate 12 1, idyn_id = replicate 12 2\<rparr>
       = Inr (replicate 12 3)"
  using control_returns_sum[of "\<lparr>stabilizer_id = [], stiffness_ufb = [], pid_ufb = replicate 12 1, idyn_id = replicate 12 2\<rparr>" 12]
  by (simp add: eval_nat_numeral)

text \<open>
  Claim C3 as stated fails: with a zero feedback torque and an inverse-dynamics torque of
  10 at every joint, the command is 10 at every joint, above every entry of the table.
\<close>

theorem control_unclamped_counterexample:
  "control 12 \<lparr>stabilizer_id = [], stiffness_ufb = [], pid_ufb = replicate 12 0, idyn_id = replicate 12 10\<rparr>
     = Inr (replicate 12 10)
   \<and> within_torque_limits leg_joint_names (replicate 12 0)
   \<and> \<not> within_torque_limits leg_joint_names (replicate 12 10)"
  by (simp add: control_def TRUNK_STABILIZATION_def CONTROL_IDYN_def PARALLEL_STIFFNESS_def
      vec_plus_def vec_scale_def within_torque_limits_def leg_joint_names_def torque_limits_def eval_nat_numeral)

section \<open>Properties of the friction estimator\<close>

subsection \<open>Auxiliary facts\<close>

lemma ebind_Inr [simp]: "ebind (Inr v) f = f v"
  by (simp add: ebind_def)

lemma ebind_Inl [simp]: "ebind (Inl e) f = Inl e"
  by (simp add: ebind_def)

lemma ebind_eq_Inr: "(ebind x f = Inr y) = (\<exists>v. x = Inr v \<and> f v = Inr y)"
  by (cases x) simp_all

lemma upt_0_numeral: "[0..<numeral n] = 0 # [Suc 0..<numeral n]"
  by (simp add: upt_conv_Cons)

lemma upt_Suc_numeral:
  "[Suc m..<numeral n] = (if Suc m < numeral n then Suc m # [Suc (Suc m)..<numeral n] else [])"
  by (simp add: upt_conv_Cons)

lemmas upt_eval = upt_0_numeral upt_Suc_numeral

lemmas estimator_defs = friction_estimation_def fe_stage1_def fe_stage2_def fe_mu_def solve_qp_def setblock_def
  mat_get_def mat_set_def mat_zero_def mat_transpose_mult_def mat_mult_vec_def vec_minus_def
  vec_plus_def vec_scale_def vec_norm_def get_sub_mat_def get_sub_vec_def set_row_def set_sub_mat_def
  mat_transpose_mult_vec_def vec_negate_def mat_negate_def mat_transpose_def vec_resize_def
  vec_set_sub_def vec_get_def vec_set_def dbl_epsilon_def Let_def upt_eval

lemmas estimator_example_defs = example_lemke_def example_svd_def example_N_def example_D_def
  example_M_def example_MU_def example_statics_def mat_of_rows_def lcp_solution_def

lemma setblock_row:
  assumes "I + i < nrows M" and "i < nrows m"
    and "\<forall>j\<in>set js. j < ncols m \<and> J + j < ncols M"
  shows "for_loop js (\<lambda>j M2. ebind (mat_get m i j) (\<lambda>x. mat_set M2 (I + i) (J + j) x)) M
         = Inr (M\<lparr>elem := (\<lambda>r k. if r = I + i \<and> J \<le> k \<and> k - J \<in> set js
                               then elem m i (k - J) else elem M r k)\<rparr>)"
  using assms
proof (induction js arbitrary: M)
  case Nil
  then show ?case by simp
next
  case (Cons j js)
  let ?M1 = "M\<lparr>elem := (elem M)(I + i := (elem M (I + i))(J + j := elem m i j))\<rparr>"
  have g: "mat_get m i j = Inr (elem m i j)" using Cons.prems by (simp add: mat_get_def)
  have s: "mat_set M (I + i) (J + j) (elem m i j) = Inr ?M1"
    using Cons.prems by (simp add: mat_set_def)
  have pre: "I + i < nrows ?M1" "\<forall>j\<in>set js. j < ncols m \<and> J + j < ncols ?M1"
    using Cons.prems by simp_all
  have eq: "?M1\<lparr>elem := (\<lambda>r k. if r = I + i \<and> J \<le> k \<and> k - J \<in> set js
                               then elem m i (k - J) else elem ?M1 r k)\<rparr>
          = M\<lparr>elem := (\<lambda>r k. if r = I + i \<and> J \<le> k \<and> k - J \<in> set (j # js)
                               then elem m i (k - J) else elem M r k)\<rparr>"
    by (rule mat.equality) (auto simp: fun_eq_iff)
  show ?case
    using Cons.IH[OF pre(1) Cons.prems(2) pre(2)] g s eq by simp
qed

lemma setblock_rows:
  assumes "\<forall>i\<in>set is. i < nrows m \<and> I + i < nrows M" and "Q \<le> ncols m" and "J + Q \<le> ncols M"
  shows "for_loop is
           (\<lambda>i M1. for_loop [0..<Q]
                  (\<lambda>j M2. ebind (mat_get m i j) (\<lambda>x. mat_set M2 (I + i) (J + j) x)) M1) M
         = Inr (M\<lparr>elem := (\<lambda>r k. if I \<le> r \<and> r - I \<in> set is \<and> J \<le> k \<and> k < J + Q
                               then elem m (r - I) (k - J) else elem M r k)\<rparr>)"
  using assms
proof (induction "is" arbitrary: M)
  case Nil
  then show ?case by simp
next
  case (Cons i "is")
  let ?M1 = "M\<lparr>elem := (\<lambda>r k. if r = I + i \<and> J \<le> k \<and> k - J \<in> set [0..<Q]
                               then elem m i (k - J) else elem M r k)\<rparr>"
  have row: "for_loop [0..<Q] (\<lambda>j M2. ebind (mat_get m i j) (\<lambda>x. mat_set M2 (I + i) (J + j) x)) M
             = Inr ?M1"
    using Cons.prems by (intro setblock_row) auto
  have pre: "\<forall>i\<in>set is. i < nrows m \<and> I + i < nrows ?M1" "J + Q \<le> ncols ?M1"
    using Cons.prems by simp_all
  have eq: "?M1\<lparr>elem := (\<lambda>r k. if I \<le> r \<and> r - I \<in> set is \<and> J \<le> k \<and> k < J + Q
                               then elem m (r - I) (k - J) else elem ?M1 r k)\<rparr>
          = M\<lparr>elem := (\<lambda>r k. if I \<le> r \<and> r - I \<in> set (i # is) \<and> J \<le> k \<and> k < J + Q
                               then elem m (r - I) (k - J) else elem M r k)\<rparr>"
    by (rule mat.equality) (auto simp: fun_eq_iff)
  show ?case
    using Cons.IH[OF pre(1) Cons.prems(2) pre(2)] row eq by simp
qed

lemma setblock_ok:
  assumes "P \<le> nrows m" and "Q \<le> ncols m" and "I + P \<le> nrows M" and "J + Q \<le> ncols M"
  shows "setblock M I J P Q m
         = Inr (M\<lparr>elem := (\<lambda>r k. if I \<le> r \<and> r < I + P \<and> J \<le> k \<and> k < J + Q
                               then elem m (r - I) (k - J) else elem M r k)\<rparr>)"
proof -
  have "\<forall>i\<in>set [0..<P]. i < nrows m \<and> I + i < nrows M" using assms by auto
  from setblock_rows[OF this assms(2,4)]
  have "setblock M I J P Q m
         = Inr (M\<lparr>elem := (\<lambda>r k. if I \<le> r \<and> r - I \<in> set [0..<P] \<and> J \<le> k \<and> k < J + Q
                               then elem m (r - I) (k - J) else elem M r k)\<rparr>)"
    by (simp add: setblock_def)
  moreover have "(\<lambda>r k. if I \<le> r \<and> r - I \<in> set [0..<P] \<and> J \<le> k \<and> k < J + Q
                               then elem m (r - I) (k - J) else elem M r k)
               = (\<lambda>r k. if I \<le> r \<and> r < I + P \<and> J \<le> k \<and> k < J + Q
                               then elem m (r - I) (k - J) else elem M r k)"
    by (auto simp: fun_eq_iff)
  ultimately show ?thesis by simp
qed

lemma extract_loop:
  assumes "\<forall>i\<in>set js. i < length x \<and> n + i < length zzz"
  shows "\<exists>x'. for_loop js
           (\<lambda>i x2. ebind (vec_get zzz (int i)) (\<lambda>zi.
                    ebind (vec_get zzz (int n + int i)) (\<lambda>zni.
                    vec_set x2 (int i) (zi - zni)))) x = Inr x'
         \<and> length x' = length x
         \<and> (\<forall>i<length x. x' ! i = (if i \<in> set js then zzz ! i - zzz ! (n + i) else x ! i))"
  using assms
proof (induction js arbitrary: x)
  case Nil
  then show ?case by simp
next
  case (Cons j js)
  let ?x1 = "x[j := zzz ! j - zzz ! (n + j)]"
  have step: "ebind (vec_get zzz (int j)) (\<lambda>zi.
                    ebind (vec_get zzz (int n + int j)) (\<lambda>zni.
                    vec_set x (int j) (zi - zni))) = Inr ?x1"
    using Cons.prems by (simp add: vec_get_def vec_set_def nat_int_add)
  have "\<forall>i\<in>set js. i < length ?x1 \<and> n + i < length zzz" using Cons.prems by simp
  from Cons.IH[OF this] obtain x' where x':
    "for_loop js
           (\<lambda>i x2. ebind (vec_get zzz (int i)) (\<lambda>zi.
                    ebind (vec_get zzz (int n + int i)) (\<lambda>zni.
                    vec_set x2 (int i) (zi - zni)))) ?x1 = Inr x'"
    "length x' = length ?x1"
    "\<forall>i<length ?x1. x' ! i = (if i \<in> set js then zzz ! i - zzz ! (n + i) else ?x1 ! i)"
    by blast
  have "\<forall>i<length x. x' ! i = (if i \<in> set (j # js) then zzz ! i - zzz ! (n + i) else x ! i)"
    using x'(3) by (auto simp: nth_list_update)
  then show ?case using step x'(1,2) by simp
qed

lemma extract_all:
  assumes "length x = n" and "2 * n \<le> length zzz"
  shows "for_loop [0..<n]
           (\<lambda>i x2. ebind (vec_get zzz (int i)) (\<lambda>zi.
                    ebind (vec_get zzz (int n + int i)) (\<lambda>zni.
                    vec_set x2 (int i) (zi - zni)))) x
         = Inr (map (\<lambda>i. zzz ! i - zzz ! (n + i)) [0..<n])"
proof -
  have "\<forall>i\<in>set [0..<n]. i < length x \<and> n + i < length zzz" using assms by auto
  from extract_loop[OF this] obtain x' where x':
    "for_loop [0..<n]
           (\<lambda>i x2. ebind (vec_get zzz (int i)) (\<lambda>zi.
                    ebind (vec_get zzz (int n + int i)) (\<lambda>zni.
                    vec_set x2 (int i) (zi - zni)))) x = Inr x'"
    "length x' = length x"
    "\<forall>i<length x. x' ! i = (if i \<in> set [0..<n] then zzz ! i - zzz ! (n + i) else x ! i)"
    by blast
  have "x' = map (\<lambda>i. zzz ! i - zzz ! (n + i)) [0..<n]"
    using x'(2,3) assms(1) by (intro nth_equalityI) simp_all
  with x'(1) show ?thesis by simp
qed

lemma lcp_matrix_built:
  assumes "ncols Q = nrows Q" and "ncols A = nrows Q"
  defines "n \<equiv> nrows Q" and "m \<equiv> nrows A"
  shows "ebind (setblock (mat_zero (n * 2 + m) (n * 2 + m)) 0 0 n n Q) (\<lambda>MMM1.
         ebind (setblock MMM1 n n n n Q) (\<lambda>MMM2.
         ebind (setblock MMM2 0 n n n (mat_negate Q)) (\<lambda>MMM3.
         ebind (setblock MMM3 n 0 n n (mat_negate Q)) (\<lambda>MMM4.
         ebind (setblock MMM4 n (n * 2) n m (mat_transpose A)) (\<lambda>MMM5.
         ebind (setblock MMM5 0 (n * 2) n m (mat_negate (mat_transpose A))) (\<lambda>MMM6.
         ebind (setblock MMM6 (n * 2) 0 m n A) (\<lambda>MMM7.
         ebind (setblock MMM7 (n * 2) n m n (mat_negate A)) f)))))))
       = f (lcp_matrix Q A)"
proof -
  let ?Z = "mat_zero (n * 2 + m) (n * 2 + m)"
  define M1 where "M1 = ?Z\<lparr>elem := (\<lambda>r k. if 0 \<le> r \<and> r < 0 + n \<and> 0 \<le> k \<and> k < 0 + n
                               then elem Q (r - 0) (k - 0) else elem ?Z r k)\<rparr>"
  define M2 where "M2 = M1\<lparr>elem := (\<lambda>r k. if n \<le> r \<and> r < n + n \<and> n \<le> k \<and> k < n + n
                               then elem Q (r - n) (k - n) else elem M1 r k)\<rparr>"
  define M3 where "M3 = M2\<lparr>elem := (\<lambda>r k. if 0 \<le> r \<and> r < 0 + n \<and> n \<le> k \<and> k < n + n
                               then elem (mat_negate Q) (r - 0) (k - n) else elem M2 r k)\<rparr>"
  define M4 where "M4 = M3\<lparr>elem := (\<lambda>r k. if n \<le> r \<and> r < n + n \<and> 0 \<le> k \<and> k < 0 + n
                               then elem (mat_negate Q) (r - n) (k - 0) else elem M3 r k)\<rparr>"
  define M5 where "M5 = M4\<lparr>elem := (\<lambda>r k. if n \<le> r \<and> r < n + n \<and> n * 2 \<le> k \<and> k < n * 2 + m
                               then elem (mat_transpose A) (r - n) (k - n * 2) else elem M4 r k)\<rparr>"
  define M6 where "M6 = M5\<lparr>elem := (\<lambda>r k. if 0 \<le> r \<and> r < 0 + n \<and> n * 2 \<le> k \<and> k < n * 2 + m
                               then elem (mat_negate (mat_transpose A)) (r - 0) (k - n * 2) else elem M5 r k)\<rparr>"
  define M7 where "M7 = M6\<lparr>elem := (\<lambda>r k. if n * 2 \<le> r \<and> r < n * 2 + m \<and> 0 \<le> k \<and> k < 0 + n
                               then elem A (r - n * 2) (k - 0) else elem M6 r k)\<rparr>"
  define M8 where "M8 = M7\<lparr>elem := (\<lambda>r k. if n * 2 \<le> r \<and> r < n * 2 + m \<and> n \<le> k \<and> k < n + n
                               then elem (mat_negate A) (r - n * 2) (k - n) else elem M7 r k)\<rparr>"
  have dims: "nrows M1 = n * 2 + m" "ncols M1 = n * 2 + m" "nrows M2 = n * 2 + m" "ncols M2 = n * 2 + m"
    "nrows M3 = n * 2 + m" "ncols M3 = n * 2 + m" "nrows M4 = n * 2 + m" "ncols M4 = n * 2 + m"
    "nrows M5 = n * 2 + m" "ncols M5 = n * 2 + m" "nrows M6 = n * 2 + m" "ncols M6 = n * 2 + m"
    "nrows M7 = n * 2 + m" "ncols M7 = n * 2 + m"
    by (simp_all add: M1_def M2_def M3_def M4_def M5_def M6_def M7_def mat_zero_def)
  have s1: "setblock ?Z 0 0 n n Q = Inr M1"
    unfolding M1_def using assms by (intro setblock_ok) (simp_all add: mat_zero_def)
  have s2: "setblock M1 n n n n Q = Inr M2"
    unfolding M2_def using assms dims by (intro setblock_ok) simp_all
  have s3: "setblock M2 0 n n n (mat_negate Q) = Inr M3"
    unfolding M3_def using assms dims by (intro setblock_ok) (simp_all add: mat_negate_def)
  have s4: "setblock M3 n 0 n n (mat_negate Q) = Inr M4"
    unfolding M4_def using assms dims by (intro setblock_ok) (simp_all add: mat_negate_def)
  have s5: "setblock M4 n (n * 2) n m (mat_transpose A) = Inr M5"
    unfolding M5_def using assms dims by (intro setblock_ok) (simp_all add: mat_transpose_def)
  have s6: "setblock M5 0 (n * 2) n m (mat_negate (mat_transpose A)) = Inr M6"
    unfolding M6_def using assms dims
    by (intro setblock_ok) (simp_all add: mat_transpose_def mat_negate_def)
  have s7: "setblock M6 (n * 2) 0 m n A = Inr M7"
    unfolding M7_def using assms dims by (intro setblock_ok) simp_all
  have s8: "setblock M7 (n * 2) n m n (mat_negate A) = Inr M8"
    unfolding M8_def using assms dims by (intro setblock_ok) (simp_all add: mat_negate_def)
  have "M8 = lcp_matrix Q A"
  proof (rule mat.equality)
    show "elem M8 = elem (lcp_matrix Q A)"
      unfolding fun_eq_iff
      by (simp add: M8_def M7_def M6_def M5_def M4_def M3_def M2_def M1_def mat_zero_def
          mat_negate_def mat_transpose_def lcp_matrix_def Let_def n_def[symmetric] m_def[symmetric]
          mult_2 mult_2_right)
  qed (simp_all add: M8_def M7_def M6_def M5_def M4_def M3_def M2_def M1_def mat_zero_def
          lcp_matrix_def Let_def n_def m_def)
  then show ?thesis using s1 s2 s3 s4 s5 s6 s7 s8 by simp
qed

lemma lcp_vector_built:
  assumes "length c = n" and "length b = m"
  shows "ebind (vec_set_sub 0 c (vec_resize (2 * n + m) [])) (\<lambda>qqq1.
         ebind (vec_set_sub n (vec_negate c) qqq1) (\<lambda>qqq2.
         ebind (vec_set_sub (2 * n) (vec_negate b) qqq2) f))
       = f (lcp_vector c b)"
  using assms by (simp add: vec_set_sub_def vec_resize_def vec_negate_def lcp_vector_def)

lemma solve_qp_closed_form:
  assumes "ncols Q = nrows Q" and "ncols A = nrows Q"
    and "length c = nrows Q" and "length b = nrows A"
    and "length (snd (lemke (lcp_matrix Q A) (lcp_vector c b)
                        (replicate (2 * nrows Q + nrows A) 0))) = 2 * nrows Q + nrows A"
  shows "solve_qp lemke Q c A b x =
     (let (SOLVE_FLAG, zzz) = lemke (lcp_matrix Q A) (lcp_vector c b)
                                (replicate (2 * nrows Q + nrows A) 0)
      in Inr (mat_negate Q, vec_negate c, mat_negate A, vec_negate b,
              map (\<lambda>i. zzz ! i - zzz ! (nrows Q + i)) [0..<nrows Q], SOLVE_FLAG))"
proof -
  let ?n = "nrows Q" and ?m = "nrows A"
  obtain ok zzz where l: "lemke (lcp_matrix Q A) (lcp_vector c b) (replicate (2 * ?n + ?m) 0) = (ok, zzz)"
    by (cases "lemke (lcp_matrix Q A) (lcp_vector c b) (replicate (2 * ?n + ?m) 0)")
  with assms(5) have len: "length zzz = 2 * ?n + ?m" by simp
  have nr: "nrows (lcp_matrix Q A) = 2 * ?n + ?m" by (simp add: lcp_matrix_def Let_def)
  have lq: "length (lcp_vector c b) = 2 * ?n + ?m" using assms(3,4) by (simp add: lcp_vector_def)
  have ex: "for_loop [0..<?n]
           (\<lambda>i x2. ebind (vec_get zzz (int i)) (\<lambda>zi.
                    ebind (vec_get zzz (int ?n + int i)) (\<lambda>zni.
                    vec_set x2 (int i) (zi - zni)))) (vec_resize ?n x)
         = Inr (map (\<lambda>i. zzz ! i - zzz ! (?n + i)) [0..<?n])"
    using len by (intro extract_all) (simp_all add: vec_resize_def)
  show ?thesis
    unfolding solve_qp_def Let_def
    by (simp add: lcp_matrix_built[OF assms(1,2)] nr lcp_vector_built[OF assms(3,4)] lq l ex)
qed

lemma vec_get_Inr: "(vec_get v (int i) = Inr x) = (i < length v \<and> x = v ! i)"
  by (auto simp: vec_get_def)

lemma vec_get_add_Inr: "(vec_get v (int a + int b) = Inr x) = (a + b < length v \<and> x = v ! (a + b))"
  using vec_get_Inr[of v "a + b" x] by simp

lemma vec_get_mult_add_Inr:
  "(vec_get v (int a * 2 + int b) = Inr x) = (a * 2 + b < length v \<and> x = v ! (a * 2 + b))"
  using vec_get_Inr[of v "a * 2 + b" x] by simp

lemma mat_set_Inr:
  "(mat_set M i j x = Inr M') =
   (i < nrows M \<and> j < ncols M \<and> M' = M\<lparr>elem := (elem M)(i := (elem M i)(j := x))\<rparr>)"
  by (auto simp: mat_set_def)

lemma fe_mu_body:
  assumes "ebind (vec_get cf (int i)) (\<lambda>cn.
                 ebind (if cn > 0 then
                          ebind (vec_get cf (int nc + int i)) (\<lambda>bs.
                          ebind (vec_get cf (int nc * 2 + int i)) (\<lambda>bt.
                          mat_set MU1 i 0 (Fin (sqrt (bs * bs + bt * bt) / cn))))
                        else mat_set MU1 i 0 NaN) (\<lambda>MU2.
                 ebind (vec_get cf (int i + int nc)) (\<lambda>p1.
                 ebind (vec_get cf (int i + int nc * 2)) (\<lambda>p2.
                 Inr MU2)))) = Inr MU'"
  shows "MU' = MU1\<lparr>elem := (elem MU1)(i := (elem MU1 i)(0 := mu_row cf nc i))\<rparr>"
  using assms
  by (auto simp: ebind_eq_Inr vec_get_Inr vec_get_add_Inr vec_get_mult_add_Inr mat_set_Inr mu_row_def
      split: if_splits)

lemma fe_mu_loop:
  assumes "for_loop js
       (\<lambda>i MU1. ebind (vec_get cf (int i)) (\<lambda>cn.
                 ebind (if cn > 0 then
                          ebind (vec_get cf (int nc + int i)) (\<lambda>bs.
                          ebind (vec_get cf (int nc * 2 + int i)) (\<lambda>bt.
                          mat_set MU1 i 0 (Fin (sqrt (bs * bs + bt * bt) / cn))))
                        else mat_set MU1 i 0 NaN) (\<lambda>MU2.
                 ebind (vec_get cf (int i + int nc)) (\<lambda>p1.
                 ebind (vec_get cf (int i + int nc * 2)) (\<lambda>p2.
                 Inr MU2))))) MU = Inr MU'"
  shows "elem MU' i 0 = (if i \<in> set js then mu_row cf nc i else elem MU i 0)"
  using assms
proof (induction js arbitrary: MU)
  case Nil
  then show ?case by simp
next
  case (Cons j js)
  from Cons.prems obtain MU1 where b: "ebind (vec_get cf (int j)) (\<lambda>cn.
                 ebind (if cn > 0 then
                          ebind (vec_get cf (int nc + int j)) (\<lambda>bs.
                          ebind (vec_get cf (int nc * 2 + int j)) (\<lambda>bt.
                          mat_set MU j 0 (Fin (sqrt (bs * bs + bt * bt) / cn))))
                        else mat_set MU j 0 NaN) (\<lambda>MU2.
                 ebind (vec_get cf (int j + int nc)) (\<lambda>p1.
                 ebind (vec_get cf (int j + int nc * 2)) (\<lambda>p2.
                 Inr MU2)))) = Inr MU1"
    and r: "for_loop js
       (\<lambda>i MU1. ebind (vec_get cf (int i)) (\<lambda>cn.
                 ebind (if cn > 0 then
                          ebind (vec_get cf (int nc + int i)) (\<lambda>bs.
                          ebind (vec_get cf (int nc * 2 + int i)) (\<lambda>bt.
                          mat_set MU1 i 0 (Fin (sqrt (bs * bs + bt * bt) / cn))))
                        else mat_set MU1 i 0 NaN) (\<lambda>MU2.
                 ebind (vec_get cf (int i + int nc)) (\<lambda>p1.
                 ebind (vec_get cf (int i + int nc * 2)) (\<lambda>p2.
                 Inr MU2))))) MU1 = Inr MU'"
    by (auto simp: ebind_eq_Inr)
  from fe_mu_body[OF b] have "elem MU1 i 0 = (if i = j then mu_row cf nc i else elem MU i 0)"
    by simp
  with Cons.IH[OF r] show ?case by auto
qed

lemma friction_estimation_mu:
  assumes "friction_estimation lemke svd cf_moby st v f dt N D M True MU cf
           = Inr (norm_error, MU', cf', st')"
    and "0 < ncols N"
  shows "fe_mu cf' (ncols N) MU = Inr MU'"
  using assms unfolding friction_estimation_def Let_def
  by (auto simp: ebind_eq_Inr split: prod.splits)

subsection \<open>The reduction of \<^verbatim>\<open>solve_qp\<close>\<close>

text \<open>
  Claim C6. For \<^verbatim>\<open>Q\<close> of size n by n, \<^verbatim>\<open>A\<close> of size m by n, \<^verbatim>\<open>c\<close> of length n and
  \<^verbatim>\<open>b\<close> of length m, \<^verbatim>\<open>solve_qp\<close> hands the solver the block matrix \<open>lcp_matrix Q A\<close>
  of size 2n+m, the vector \<open>lcp_vector c b\<close> and a zero start vector; \<^verbatim>\<open>x\<close> becomes the
  difference of the first and the second n elements of the solver's vector, which the
  solver leaves as long as the vector it was given; the return value is the solver's.
\<close>

theorem solve_qp_lcp_reduction:
  assumes "ncols Q = nrows Q" and "ncols A = nrows Q"
    and "length c = nrows Q" and "length b = nrows A"
    and "length (snd (lemke (lcp_matrix Q A) (lcp_vector c b)
                        (replicate (2 * nrows Q + nrows A) 0))) = 2 * nrows Q + nrows A"
  shows "map_sum id (\<lambda>(Q', c', A', b', x', flag). (x', flag)) (solve_qp lemke Q c A b x) =
     (let (SOLVE_FLAG, zzz) = lemke (lcp_matrix Q A) (lcp_vector c b)
                                (replicate (2 * nrows Q + nrows A) 0)
      in Inr (map (\<lambda>i. zzz ! i - zzz ! (nrows Q + i)) [0..<nrows Q], SOLVE_FLAG))"
  using solve_qp_closed_form[of Q A c b lemke x] assms by (simp split: prod.splits)

text \<open>
  The theorem on the program "minimise x squared minus 2 x, subject to x at least 0", with a
  solver that answers (1, 0, 0).
\<close>

theorem solve_qp_lcp_reduction_witness:
  "ncols (mat_of_rows [[2::real]]) = nrows (mat_of_rows [[2::real]])
   \<and> ncols (mat_of_rows [[1::real]]) = nrows (mat_of_rows [[2::real]])
   \<and> length [- 2 :: real] = nrows (mat_of_rows [[2::real]])
   \<and> length [0 :: real] = nrows (mat_of_rows [[1::real]])
   \<and> map (\<lambda>i. map (elem (lcp_matrix (mat_of_rows [[2]]) (mat_of_rows [[1]])) i) [0, 1, 2]) [0, 1, 2]
       = [[2, - 2, - 1], [- 2, 2, 1], [1, - 1, 0]]
   \<and> lcp_vector [- 2] [0] = [- 2, 2, 0]
   \<and> map_sum id (\<lambda>(Q', c', A', b', x', flag). (x', flag))
        (solve_qp (\<lambda>M q z. (True, [1, 0, 0])) (mat_of_rows [[2]]) [- 2] (mat_of_rows [[1]]) [0] [])
       = Inr ([1], True)"
  using solve_qp_lcp_reduction[of "mat_of_rows [[2]]" "mat_of_rows [[1]]" "[- 2]" "[0]"
      "\<lambda>M q z. (True, [1, 0, 0])" "[]"]
  by (simp add: mat_of_rows_def lcp_matrix_def lcp_vector_def)

subsection \<open>\<^verbatim>\<open>solve_qp\<close> changes its arguments\<close>

text \<open>
  Claim C9. Whenever \<^verbatim>\<open>solve_qp\<close> returns, \<^verbatim>\<open>Q\<close>, \<^verbatim>\<open>c\<close>, \<^verbatim>\<open>A\<close> and \<^verbatim>\<open>b\<close> hold the
  negation of what was passed in. Stage I of \<^verbatim>\<open>friction_estimation\<close> builds \<^verbatim>\<open>c\<close> as the
  negated product of the transpose of \<^verbatim>\<open>R\<close> with \<^verbatim>\<open>jstar\<close>; the \<^verbatim>\<open>c\<close> that it leaves
  for Stage II, where the first constraint row is computed from it, is that product
  itself.
\<close>

theorem solve_qp_negates_arguments:
  "(solve_qp lemke Q c A b x = Inr (Q', c', A', b', x', flag) \<longrightarrow>
      Q' = mat_negate Q \<and> c' = vec_negate c \<and> A' = mat_negate A \<and> b' = vec_negate b)
   \<and> (fe_stage1 lemke1 N D jstar nc ngc nk = Inr (R, Q1, c1, z, ok) \<longrightarrow>
      mat_transpose_mult_vec R jstar = Inr c1)"
proof -
  have a: "solve_qp lemke Q c A b x = Inr (Q', c', A', b', x', flag) \<longrightarrow>
      Q' = mat_negate Q \<and> c' = vec_negate c \<and> A' = mat_negate A \<and> b' = vec_negate b"
    unfolding solve_qp_def Let_def
    by (auto simp: ebind_eq_Inr split: prod.splits) (metis surj_pair)+
  have neg: "Q2' = mat_negate Q2 \<and> c2' = vec_negate c2"
    if "solve_qp lemke1 Q2 c2 A2 b2 x2 = Inr (Q2', c2', A2', b2', x2', flag2)"
    for Q2 c2 A2 b2 x2 Q2' c2' A2' b2' x2' flag2
    using that unfolding solve_qp_def Let_def
    by (auto simp: ebind_eq_Inr split: prod.splits) (metis surj_pair)+
  have b: "fe_stage1 lemke1 N D jstar nc ngc nk = Inr (R, Q1, c1, z, ok) \<longrightarrow>
      mat_transpose_mult_vec R jstar = Inr c1"
  proof
    assume "fe_stage1 lemke1 N D jstar nc ngc nk = Inr (R, Q1, c1, z, ok)"
    then obtain c0 Q0 A0 b0 z0 A' b' where c0: "mat_transpose_mult_vec R jstar = Inr c0"
      and s: "solve_qp lemke1 Q0 (vec_negate c0) A0 b0 z0 = Inr (Q1, c1, A', b', z, ok)"
      unfolding fe_stage1_def Let_def
      by (auto simp: ebind_eq_Inr split: prod.splits)
    from neg[OF s] have "c1 = c0" by (simp add: vec_negate_def comp_def)
    with c0 show "mat_transpose_mult_vec R jstar = Inr c1" by simp
  qed
  from a b show ?thesis by blast
qed

text \<open>
  The theorem on the small program of the previous witness and on Stage I of the
  example: the vector built there is (-1, 1, 0), the one left for Stage II is (1, -1, 0).
\<close>

theorem solve_qp_negates_arguments_witness:
  "solve_qp (\<lambda>M q z. (True, [1, 0, 0])) (mat_of_rows [[2]]) [- 2] (mat_of_rows [[1]]) [0] []
     = Inr (mat_negate (mat_of_rows [[2]]), [2], mat_negate (mat_of_rows [[1]]), [0], [1], True)
   \<and> map_sum id (\<lambda>(R, Q1, c1, z, ok). (c1, ok))
        (fe_stage1 example_lemke example_N example_D [1, - 1, 0] 1 3 4) = Inr ([1, - 1, 0], True)"
proof -
  have h1: "solve_qp (\<lambda>M q z. (True, [1, 0, 0])) (mat_of_rows [[2]]) [- 2] (mat_of_rows [[1]]) [0] []
     = Inr (mat_negate (mat_of_rows [[2]]), [2], mat_negate (mat_of_rows [[1]]), [0], [1], True)"
    using solve_qp_closed_form[of "mat_of_rows [[2]]" "mat_of_rows [[1]]" "[- 2]" "[0]"
      "\<lambda>M q z. (True, [1, 0, 0])" "[]"]
    by (simp add: mat_of_rows_def vec_negate_def)
  have "\<exists>R Q1 z. fe_stage1 example_lemke example_N example_D [1, - 1, 0] 1 3 4
                  = Inr (R, Q1, [1, - 1, 0], z, True)"
    by (simp add: estimator_defs estimator_example_defs)
  then obtain R Q1 z where h2:
    "fe_stage1 example_lemke example_N example_D [1, - 1, 0] 1 3 4 = Inr (R, Q1, [1, - 1, 0], z, True)"
    by blast
  from solve_qp_negates_arguments[of "\<lambda>M q z. (True, [1, 0, 0])" "mat_of_rows [[2]]" "[- 2]"
      "mat_of_rows [[1]]" "[0]" "[]" "mat_negate (mat_of_rows [[2]])" "[2]"
      "mat_negate (mat_of_rows [[1]])" "[0]" "[1]" True
      example_lemke example_N example_D "[1, - 1, 0]" 1 3 4 R Q1 "[1, - 1, 0]" z True] h1 h2
  show ?thesis by simp
qed

subsection \<open>The estimated coefficients\<close>

text \<open>
  Claim C4. When \<^verbatim>\<open>friction_estimation\<close> returns from a post-event call with
  \<^verbatim>\<open>nc > 0\<close> contacts, the vector \<^verbatim>\<open>cf\<close> holds the final \<^verbatim>\<open>z\<close>, and row \<open>i < nc\<close> of
  column 0 of \<^verbatim>\<open>MU\<close> is the root of the sum of the squares of \<^verbatim>\<open>cf[nc+i]\<close> and
  \<^verbatim>\<open>cf[2 nc+i]\<close>, divided by \<^verbatim>\<open>cf[i]\<close>, when \<^verbatim>\<open>cf[i]\<close> is positive, and NaN when it is
  not.
\<close>

theorem friction_coefficient_rows:
  assumes "friction_estimation lemke svd cf_moby st v f dt N D M True MU cf
           = Inr (norm_error, MU', cf', st')"
    and "i < ncols N"
  shows "elem MU' i 0 =
         (if cf' ! i > 0
          then Fin (sqrt (cf' ! (ncols N + i) * cf' ! (ncols N + i)
                          + cf' ! (ncols N * 2 + i) * cf' ! (ncols N * 2 + i)) / cf' ! i)
          else NaN)"
proof -
  from assms(2) have "0 < ncols N" by simp
  from friction_estimation_mu[OF assms(1) this]
  have "fe_mu cf' (ncols N) MU = Inr MU'" .
  from fe_mu_loop[OF this[unfolded fe_mu_def], of i] assms(2)
  show ?thesis by (simp add: mu_row_def)
qed

text \<open>
  The theorem on the example, through both stages: the estimate is (1, -1, 0) and the
  coefficient of the one contact is 1.
\<close>

theorem friction_coefficient_rows_witness:
  "(0::nat) < ncols example_N
   \<and> map_sum id (\<lambda>(ne, MU', cf', st'). (elem MU' 0 0, cf'))
        (friction_estimation example_lemke example_svd [0, 0, 0] example_statics [1, - 1, 0] []
           (1 / 100) example_N example_D example_M True example_MU [])
     = Inr (Fin 1, [1, - 1, 0])"
proof -
  have "\<exists>ne MU' st'.
          friction_estimation example_lemke example_svd [0, 0, 0] example_statics [1, - 1, 0] []
           (1 / 100) example_N example_D example_M True example_MU [] = Inr (ne, MU', [1, - 1, 0], st')"
    by (simp add: estimator_defs estimator_example_defs)
  then obtain ne MU' st' where r:
    "friction_estimation example_lemke example_svd [0, 0, 0] example_statics [1, - 1, 0] []
           (1 / 100) example_N example_D example_M True example_MU [] = Inr (ne, MU', [1, - 1, 0], st')"
    by blast
  have n: "(0::nat) < ncols example_N" by (simp add: estimator_example_defs)
  from friction_coefficient_rows[OF r n] have "elem MU' 0 0 = Fin 1"
    by (simp add: estimator_example_defs)
  with r n show ?thesis by simp
qed

subsection \<open>The two stages: signs and residual\<close>

lemma for_loop_invariant:
  assumes "for_loop js body s = Inr s'" and "P s"
    and "\<And>j t t'. j \<in> set js \<Longrightarrow> P t \<Longrightarrow> body j t = Inr t' \<Longrightarrow> P t'"
  shows "P s'"
  using assms
proof (induction js arbitrary: s)
  case Nil
  then show ?case by simp
next
  case (Cons j js)
  from Cons.prems(1) obtain t where t: "body j s = Inr t" and r: "for_loop js body t = Inr s'"
    by (auto simp: ebind_eq_Inr)
  have "P t" using Cons.prems(3)[of j s t] Cons.prems(2) t by simp
  show ?case
  proof (rule Cons.IH[OF r \<open>P t\<close>])
    fix i u u' assume "i \<in> set js" "P u" "body i u = Inr u'"
    then show "P u'" using Cons.prems(3)[of i u u'] by simp
  qed
qed

lemma setblock_dims:
  assumes "setblock M I J P Q m = Inr M'"
  shows "nrows M' = nrows M \<and> ncols M' = ncols M"
proof -
  let ?inv = "\<lambda>X::'a mat. nrows X = nrows M \<and> ncols X = ncols M"
  have cell: "?inv t'" if "?inv t" and "ebind (mat_get m i j) (\<lambda>x. mat_set t (I + i) (J + j) x) = Inr t'"
    for i j t t'
    using that by (auto simp: ebind_eq_Inr mat_set_Inr)
  have inner: "?inv t'" if "?inv t"
    and "for_loop [0..<Q] (\<lambda>j M2. ebind (mat_get m i j) (\<lambda>x. mat_set M2 (I + i) (J + j) x)) t = Inr t'"
    for i t t'
    using that(2,1)
  proof (rule for_loop_invariant)
    fix j u u' assume "?inv u" "ebind (mat_get m i j) (\<lambda>x. mat_set u (I + i) (J + j) x) = Inr u'"
    then show "?inv u'" by (rule cell)
  qed
  have "?inv M" by simp
  with assms[unfolded setblock_def] show ?thesis
  proof (rule for_loop_invariant)
    fix i u u' assume "?inv u"
      "for_loop [0..<Q] (\<lambda>j M2. ebind (mat_get m i j) (\<lambda>x. mat_set M2 (I + i) (J + j) x)) u = Inr u'"
    then show "?inv u'" by (rule inner)
  qed
qed

lemma identity_rows_loop:
  assumes "for_loop js (\<lambda>i A1. mat_set A1 i i (1::real)) M = Inr A"
  shows "(\<forall>i\<in>set js. i < nrows M \<and> i < ncols M) \<and> nrows A = nrows M \<and> ncols A = ncols M
         \<and> elem A = (\<lambda>r k. if r = k \<and> r \<in> set js then 1 else elem M r k)"
  using assms
proof (induction js arbitrary: M)
  case Nil
  then show ?case by simp
next
  case (Cons j js)
  let ?M1 = "M\<lparr>elem := (elem M)(j := (elem M j)(j := 1))\<rparr>"
  from Cons.prems have j: "j < nrows M" "j < ncols M" and r: "for_loop js (\<lambda>i A1. mat_set A1 i i 1) ?M1 = Inr A"
    by (auto simp: ebind_eq_Inr mat_set_Inr)
  from Cons.IH[OF r] j show ?case by (auto simp: fun_eq_iff)
qed

lemma count_zero_sv_range:
  assumes "count_zero_sv S tol (rev [0..<n]) a = m"
  shows "a \<le> m \<and> m - a \<le> n \<and> (\<forall>k. n - (m - a) \<le> k \<and> k < n \<longrightarrow> \<not> S ! k > tol)"
  using assms
proof (induction n arbitrary: a m)
  case 0
  then show ?case by simp
next
  case (Suc n)
  show ?case
  proof (cases "S ! n > tol")
    case True
    with Suc.prems show ?thesis by simp
  next
    case False
    with Suc.prems have "count_zero_sv S tol (rev [0..<n]) (a + 1) = m" by simp
    from Suc.IH[OF this] have ih: "a + 1 \<le> m" "m - (a + 1) \<le> n"
      "\<forall>k. n - (m - (a + 1)) \<le> k \<and> k < n \<longrightarrow> \<not> S ! k > tol" by auto
    have "\<not> S ! k > tol" if "Suc n - (m - a) \<le> k" "k < Suc n" for k
    proof (cases "k = n")
      case True
      with False show ?thesis by simp
    next
      case ne: False
      with that have "k < n" by simp
      moreover have "n - (m - (a + 1)) \<le> k" using that(1) ih(1,2) by arith
      ultimately show ?thesis using ih(3) by blast
    qed
    then show ?thesis using ih(1,2) by auto
  qed
qed

lemma sum_list_upt_conv: "(\<Sum>k\<leftarrow>[0..<n]. f k) = sum f {0..<n}"
  by (simp add: interv_sum_list_conv_sum_set_nat)

lemma sum_two_points:
  fixes x y :: real
  assumes "a < n" and "b < n" and "a \<noteq> b"
  shows "(\<Sum>k\<leftarrow>[0..<n]. if k = a then x else if k = b then y else 0) = x + y"
proof -
  have "(\<lambda>k. if k = a then x else if k = b then y else 0)
        = (\<lambda>k. (if k = a then x else 0) + (if k = b then y else 0))"
    using assms(3) by (auto simp: fun_eq_iff)
  then have "(\<Sum>k\<leftarrow>[0..<n]. if k = a then x else if k = b then y else 0)
        = sum (\<lambda>k. (if k = a then x else 0) + (if k = b then y else 0)) {0..<n}"
    by (simp add: sum_list_upt_conv)
  also have "\<dots> = x + y" using assms(1,2) by (simp add: sum.distrib)
  finally show ?thesis .
qed

lemma lcp_solution_row:
  assumes "lcp_solution M q z" and "r < nrows M"
  shows "0 \<le> (\<Sum>k\<leftarrow>[0..<ncols M]. elem M r k * z ! k) + q ! r"
proof -
  from assms(1) obtain Mz where mz: "mat_mult_vec M z = Inr Mz"
    and w: "list_all (\<lambda>x. 0 \<le> x) (map2 (+) Mz q)" and nq: "nrows M = length q"
    by (auto simp: lcp_solution_def split: sum.splits)
  from mz have Mz: "Mz = map (\<lambda>i. \<Sum>j\<leftarrow>[0..<ncols M]. elem M i j * z ! j) [0..<nrows M]"
    by (auto simp: mat_mult_vec_def split: if_splits)
  have "r < length (map2 (+) Mz q)" using assms(2) nq Mz by simp
  with w have "0 \<le> map2 (+) Mz q ! r" by (simp add: list_all_length)
  then show ?thesis using assms(2) nq Mz by simp
qed

lemma lcp_solution_length: "lcp_solution M q z \<Longrightarrow> length z = length q"
  by (simp add: lcp_solution_def)

lemma example_lemke_ok: "lcp_solver_ok example_lemke"
  unfolding lcp_solver_ok_def example_lemke_def
  by (auto dest: lcp_solution_length)

lemma stage1_normal_nonneg:
  assumes ok: "lcp_solver_ok lemke"
    and s1: "fe_stage1 lemke N D jstar nc ngc nk = Inr (R, Q, c, z, True)"
    and i: "i < nc"
  shows "0 \<le> z ! i"
proof -
  from s1 obtain ST R1 Q0 c0 A A' b' where
    r1: "setblock (mat_zero ngc (ncols N + ncols ST)) 0 0 (nrows N) (ncols N) N = Inr R1"
    and r: "setblock R1 0 (ncols N) (nrows ST) (ncols ST) ST = Inr R"
    and q0: "mat_transpose_mult R R = Inr Q0"
    and c0: "mat_transpose_mult_vec R jstar = Inr c0"
    and a: "for_loop [0..<nc] (\<lambda>i A1. mat_set A1 i i 1) (mat_zero nc (ncols N + ncols ST)) = Inr A"
    and s: "solve_qp lemke Q0 (vec_negate c0) A (replicate nc 0)
              (replicate (ncols N + ncols ST) 0) = Inr (Q, c, A', b', z, True)"
    unfolding fe_stage1_def Let_def
    by (auto simp: ebind_eq_Inr split: prod.splits)
  define n where "n = ncols N + ncols ST"
  have cR: "ncols R = n"
    using setblock_dims[OF r1] setblock_dims[OF r] by (simp add: mat_zero_def n_def)
  have dQ: "nrows Q0 = n" "ncols Q0 = n"
    using q0 cR by (auto simp: mat_transpose_mult_def split: if_splits)
  have lc: "length (vec_negate c0) = n"
    using c0 cR by (auto simp: mat_transpose_mult_vec_def vec_negate_def split: if_splits)
  from identity_rows_loop[OF a] have dA: "nrows A = nc" "ncols A = n"
    and iA: "\<forall>i<nc. i < n" and eA: "elem A = (\<lambda>r k. if r = k \<and> r < nc then 1 else 0)"
    by (auto simp: mat_zero_def n_def fun_eq_iff)
  let ?MMM = "lcp_matrix Q0 A" and ?qqq = "lcp_vector (vec_negate c0) (replicate nc 0)"
  let ?z0 = "replicate (2 * nrows Q0 + nrows A) (0::real)"
  obtain flag zzz where l: "lemke ?MMM ?qqq ?z0 = (flag, zzz)" by (cases "lemke ?MMM ?qqq ?z0")
  have lq: "length ?qqq = 2 * n + nc" using lc by (simp add: lcp_vector_def)
  have lz: "length (snd (lemke ?MMM ?qqq ?z0)) = 2 * nrows Q0 + nrows A"
    using ok lq dQ dA by (simp add: lcp_solver_ok_def)
  have cf: "solve_qp lemke Q0 (vec_negate c0) A (replicate nc 0) (replicate (ncols N + ncols ST) 0)
        = Inr (mat_negate Q0, vec_negate (vec_negate c0), mat_negate A, vec_negate (replicate nc 0),
              map (\<lambda>i. zzz ! i - zzz ! (nrows Q0 + i)) [0..<nrows Q0], flag)"
    using solve_qp_closed_form[of Q0 A "vec_negate c0" "replicate nc 0" lemke
        "replicate (ncols N + ncols ST) 0"] dQ dA lc lz l
    by simp
  from s cf have flag: "flag = True" and z: "z = map (\<lambda>i. zzz ! i - zzz ! (n + i)) [0..<n]"
    by (simp_all add: dQ)
  have "fst (lemke ?MMM ?qqq ?z0) \<longrightarrow> lcp_solution ?MMM ?qqq (snd (lemke ?MMM ?qqq ?z0))"
    using ok unfolding lcp_solver_ok_def by blast
  then have sol: "lcp_solution ?MMM ?qqq zzz"
    using l flag by simp
  have inn: "i < n" using iA i by simp
  have nr: "nrows ?MMM = 2 * n + nc" "ncols ?MMM = 2 * n + nc"
    by (simp_all add: lcp_matrix_def Let_def dQ dA)
  have row: "2 * n + i < nrows ?MMM" using i nr by simp
  have el: "elem ?MMM (2 * n + i) k * zzz ! k
            = (if k = i then zzz ! i else if k = n + i then - zzz ! (n + i) else 0)" for k
    using i inn by (auto simp: lcp_matrix_def Let_def dQ dA eA)
  have "(\<Sum>k\<leftarrow>[0..<ncols ?MMM]. elem ?MMM (2 * n + i) k * zzz ! k)
        = (\<Sum>k\<leftarrow>[0..<2 * n + nc]. if k = i then zzz ! i else if k = n + i then - zzz ! (n + i) else 0)"
    by (simp only: el nr)
  also have "\<dots> = zzz ! i + - zzz ! (n + i)"
    using i inn by (intro sum_two_points) auto
  finally have sumr: "(\<Sum>k\<leftarrow>[0..<ncols ?MMM]. elem ?MMM (2 * n + i) k * zzz ! k)
        = zzz ! i - zzz ! (n + i)" by simp
  have qr: "?qqq ! (2 * n + i) = 0"
    using lc i by (simp add: lcp_vector_def nth_append vec_negate_def)
  from lcp_solution_row[OF sol row] have "0 \<le> zzz ! i - zzz ! (n + i)"
    by (simp only: sumr qr add_0_right)
  then show ?thesis using inn by (simp add: z)
qed

lemma fe_stage2_cases:
  assumes s2: "fe_stage2 lemke svd R Q c z jstar nc ne = Inr (z', ne')"
    and sv: "svd Q = (U, S, V)"
  shows "z' = z
       \<or> (\<exists>m P w z2 e. m = count_zero_sv S (dbl_epsilon * real (nrows Q) * S ! 0) (rev [0..<length S]) 0
             \<and> m \<le> ncols V
             \<and> get_sub_mat V 0 (nrows V) (ncols V - m) (ncols V) = Inr P
             \<and> mat_mult_vec P w = Inr z2 \<and> vec_plus z z2 = Inr z' \<and> mat_mult_vec R z' = Inr e)"
  using s2 unfolding fe_stage2_def Let_def sv
  by (auto simp: ebind_eq_Inr split: prod.splits if_splits)

lemma null_space_step:
  fixes R P :: "real mat"
  assumes np: "\<forall>i<nrows R. \<forall>k<ncols P. (\<Sum>j\<leftarrow>[0..<ncols R]. elem R i j * elem P j k) = 0"
    and z2: "mat_mult_vec P w = Inr z2"
    and z': "vec_plus z z2 = Inr z'"
    and e: "mat_mult_vec R z' = Inr e"
  shows "mat_mult_vec R z' = mat_mult_vec R z"
proof -
  from z2 have lw: "length w = ncols P"
    and z2d: "z2 = map (\<lambda>j. \<Sum>k\<leftarrow>[0..<ncols P]. elem P j k * w ! k) [0..<nrows P]"
    by (auto simp: mat_mult_vec_def split: if_splits)
  from z' have lz: "length z = length z2" and z'd: "z' = map2 (+) z z2"
    by (auto simp: vec_plus_def split: if_splits)
  from e have lR: "ncols R = length z'" by (auto simp: mat_mult_vec_def split: if_splits)
  have lz': "length z' = length z" using z'd lz by simp
  have l2: "length z2 = nrows P" using z2d by simp
  have row: "(\<Sum>j\<leftarrow>[0..<ncols R]. elem R i j * z' ! j) = (\<Sum>j\<leftarrow>[0..<ncols R]. elem R i j * z ! j)"
    if i: "i < nrows R" for i
  proof -
    let ?n = "ncols R" and ?m = "ncols P"
    have "(\<Sum>j\<leftarrow>[0..<?n]. elem R i j * z' ! j) = (\<Sum>j = 0..<?n. elem R i j * z' ! j)"
      by (rule sum_list_upt_conv)
    also have "\<dots> = (\<Sum>j = 0..<?n. elem R i j * z ! j
                        + (\<Sum>k = 0..<?m. elem R i j * elem P j k * w ! k))"
    proof (rule sum.cong[OF refl])
      fix j assume "j \<in> {0..<?n}"
      then have j: "j < length z" "j < length z2" "j < nrows P" using lR lz' lz l2 by simp_all
      have "z' ! j = z ! j + z2 ! j" using j z'd by simp
      moreover have "z2 ! j = (\<Sum>k = 0..<?m. elem P j k * w ! k)"
        using j z2d by (simp add: sum_list_upt_conv)
      ultimately show "elem R i j * z' ! j
            = elem R i j * z ! j + (\<Sum>k = 0..<?m. elem R i j * elem P j k * w ! k)"
        by (simp add: algebra_simps sum_distrib_left)
    qed
    also have "\<dots> = (\<Sum>j = 0..<?n. elem R i j * z ! j)
                      + (\<Sum>j = 0..<?n. \<Sum>k = 0..<?m. elem R i j * elem P j k * w ! k)"
      by (simp add: sum.distrib)
    also have "(\<Sum>j = 0..<?n. \<Sum>k = 0..<?m. elem R i j * elem P j k * w ! k)
             = (\<Sum>k = 0..<?m. \<Sum>j = 0..<?n. elem R i j * elem P j k * w ! k)"
      by (rule sum.swap)
    also have "\<dots> = (\<Sum>k = 0..<?m. (\<Sum>j = 0..<?n. elem R i j * elem P j k) * w ! k)"
      by (simp add: sum_distrib_right)
    also have "\<dots> = 0"
    proof (rule sum.neutral, rule ballI)
      fix k assume "k \<in> {0..<?m}"
      then have "(\<Sum>j\<leftarrow>[0..<?n]. elem R i j * elem P j k) = 0" using np i by simp
      then show "(\<Sum>j = 0..<?n. elem R i j * elem P j k) * w ! k = 0"
        by (simp add: sum_list_upt_conv)
    qed
    finally show ?thesis by (simp add: sum_list_upt_conv)
  qed
  have "mat_mult_vec R z = Inr (map (\<lambda>i. \<Sum>j\<leftarrow>[0..<ncols R]. elem R i j * z ! j) [0..<nrows R])"
    using lR lz' by (simp add: mat_mult_vec_def)
  moreover have "mat_mult_vec R z' = Inr (map (\<lambda>i. \<Sum>j\<leftarrow>[0..<ncols R]. elem R i j * z' ! j) [0..<nrows R])"
    using lR by (simp add: mat_mult_vec_def)
  ultimately show ?thesis using row by simp
qed

lemma stage2_keeps_product:
  assumes s2: "fe_stage2 lemke svd R Q c z jstar nc ne = Inr (z', ne')"
    and sv: "svd Q = (U, S, V)" and ls: "length S = ncols V"
    and null: "\<forall>k<ncols V. \<not> S ! k > dbl_epsilon * real (nrows Q) * S ! 0 \<longrightarrow>
                 (\<forall>i<nrows R. (\<Sum>j\<leftarrow>[0..<ncols R]. elem R i j * elem V j k) = 0)"
  shows "mat_mult_vec R z' = mat_mult_vec R z"
proof -
  from fe_stage2_cases[OF s2 sv] show ?thesis
  proof
    assume "z' = z"
    then show ?thesis by simp
  next
    assume "\<exists>m P w z2 e. m = count_zero_sv S (dbl_epsilon * real (nrows Q) * S ! 0) (rev [0..<length S]) 0
             \<and> m \<le> ncols V
             \<and> get_sub_mat V 0 (nrows V) (ncols V - m) (ncols V) = Inr P
             \<and> mat_mult_vec P w = Inr z2 \<and> vec_plus z z2 = Inr z' \<and> mat_mult_vec R z' = Inr e"
    then obtain m P w z2 e where
      m: "count_zero_sv S (dbl_epsilon * real (nrows Q) * S ! 0) (rev [0..<length S]) 0 = m"
      and mle: "m \<le> ncols V"
      and P: "get_sub_mat V 0 (nrows V) (ncols V - m) (ncols V) = Inr P"
      and z2: "mat_mult_vec P w = Inr z2" and z': "vec_plus z z2 = Inr z'"
      and e: "mat_mult_vec R z' = Inr e"
      by blast
    from count_zero_sv_range[OF m] ls
    have small: "\<forall>k. ncols V - m \<le> k \<and> k < ncols V \<longrightarrow> \<not> S ! k > dbl_epsilon * real (nrows Q) * S ! 0"
      by simp
    from P have cP: "ncols P = m" and eP: "elem P = (\<lambda>i j. elem V i (ncols V - m + j))"
      using mle by (auto simp: get_sub_mat_def split: if_splits)
    have np: "\<forall>i<nrows R. \<forall>k<ncols P. (\<Sum>j\<leftarrow>[0..<ncols R]. elem R i j * elem P j k) = 0"
    proof (intro allI impI)
      fix i k assume i: "i < nrows R" and k: "k < ncols P"
      let ?k = "ncols V - m + k"
      have "?k < ncols V" "ncols V - m \<le> ?k" using k cP mle by simp_all
      with small null i have "(\<Sum>j\<leftarrow>[0..<ncols R]. elem R i j * elem V j ?k) = 0" by blast
      then show "(\<Sum>j\<leftarrow>[0..<ncols R]. elem R i j * elem P j k) = 0" by (simp add: eP)
    qed
    from null_space_step[OF np z2 z' e] show ?thesis .
  qed
qed

lemma gram_null:
  fixes R :: "real mat"
  assumes "\<forall>a<n. (\<Sum>b = 0..<n. (\<Sum>l = 0..<r. elem R l a * elem R l b) * v b) = 0"
  shows "\<forall>l<r. (\<Sum>b = 0..<n. elem R l b * v b) = 0"
proof -
  define y where "y l = (\<Sum>b = 0..<n. elem R l b * v b)" for l
  have "(\<Sum>l = 0..<r. y l * y l)
        = (\<Sum>l = 0..<r. \<Sum>a = 0..<n. \<Sum>b = 0..<n. (elem R l a * v a) * (elem R l b * v b))"
    by (simp add: y_def sum_product)
  also have "\<dots> = (\<Sum>a = 0..<n. \<Sum>l = 0..<r. \<Sum>b = 0..<n. (elem R l a * v a) * (elem R l b * v b))"
    by (rule sum.swap)
  also have "\<dots> = (\<Sum>a = 0..<n. \<Sum>b = 0..<n. \<Sum>l = 0..<r. (elem R l a * v a) * (elem R l b * v b))"
    by (intro sum.cong refl sum.swap)
  also have "\<dots> = (\<Sum>a = 0..<n. v a * (\<Sum>b = 0..<n. (\<Sum>l = 0..<r. elem R l a * elem R l b) * v b))"
    by (simp add: sum_distrib_left sum_distrib_right mult_ac)
  also have "\<dots> = 0" using assms by simp
  finally have "(\<Sum>l = 0..<r. y l * y l) = 0" .
  moreover have "\<forall>l\<in>{0..<r}. 0 \<le> y l * y l" by simp
  ultimately have "\<forall>l\<in>{0..<r}. y l * y l = 0"
    by (simp add: sum_nonneg_eq_0_iff)
  then show ?thesis by (simp add: y_def)
qed

lemma stage1_shape:
  assumes ok: "lcp_solver_ok lemke"
    and s1: "fe_stage1 lemke N D jstar nc ngc nk = Inr (R, Q, c, z, flag)"
  shows "nrows Q = ncols R" and "ncols Q = ncols R"
    and "elem Q = (\<lambda>a b. - (\<Sum>l\<leftarrow>[0..<nrows R]. elem R l a * elem R l b))"
    and "length z = ncols R" and "nrows R = length jstar"
proof -
  from s1 obtain ST R1 Q0 c0 A A' b' where
    r1: "setblock (mat_zero ngc (ncols N + ncols ST)) 0 0 (nrows N) (ncols N) N = Inr R1"
    and r: "setblock R1 0 (ncols N) (nrows ST) (ncols ST) ST = Inr R"
    and q0: "mat_transpose_mult R R = Inr Q0"
    and c0: "mat_transpose_mult_vec R jstar = Inr c0"
    and a: "for_loop [0..<nc] (\<lambda>i A1. mat_set A1 i i 1) (mat_zero nc (ncols N + ncols ST)) = Inr A"
    and s: "solve_qp lemke Q0 (vec_negate c0) A (replicate nc 0)
              (replicate (ncols N + ncols ST) 0) = Inr (Q, c, A', b', z, flag)"
    unfolding fe_stage1_def Let_def
    by (auto simp: ebind_eq_Inr split: prod.splits)
  define n where "n = ncols N + ncols ST"
  have cR: "ncols R = n"
    using setblock_dims[OF r1] setblock_dims[OF r] by (simp add: mat_zero_def n_def)
  have Q0: "Q0 = \<lparr>nrows = ncols R, ncols = ncols R,
                  elem = (\<lambda>i j. \<Sum>k\<leftarrow>[0..<nrows R]. elem R k i * elem R k j)\<rparr>"
    using q0 by (auto simp: mat_transpose_mult_def split: if_splits)
  have dQ: "nrows Q0 = n" "ncols Q0 = n" using Q0 cR by simp_all
  have lc: "length (vec_negate c0) = n"
    using c0 cR by (auto simp: mat_transpose_mult_vec_def vec_negate_def split: if_splits)
  from identity_rows_loop[OF a] have dA: "nrows A = nc" "ncols A = n"
    by (auto simp: mat_zero_def n_def)
  let ?MMM = "lcp_matrix Q0 A" and ?qqq = "lcp_vector (vec_negate c0) (replicate nc 0)"
  let ?z0 = "replicate (2 * nrows Q0 + nrows A) (0::real)"
  obtain fl zzz where l: "lemke ?MMM ?qqq ?z0 = (fl, zzz)" by (cases "lemke ?MMM ?qqq ?z0")
  have lq: "length ?qqq = 2 * n + nc" using lc by (simp add: lcp_vector_def)
  have lz: "length (snd (lemke ?MMM ?qqq ?z0)) = 2 * nrows Q0 + nrows A"
    using ok lq dQ dA by (simp add: lcp_solver_ok_def)
  have cf: "solve_qp lemke Q0 (vec_negate c0) A (replicate nc 0) (replicate (ncols N + ncols ST) 0)
        = Inr (mat_negate Q0, vec_negate (vec_negate c0), mat_negate A, vec_negate (replicate nc 0),
              map (\<lambda>i. zzz ! i - zzz ! (nrows Q0 + i)) [0..<nrows Q0], fl)"
    using solve_qp_closed_form[of Q0 A "vec_negate c0" "replicate nc 0" lemke
        "replicate (ncols N + ncols ST) 0"] dQ dA lc lz l
    by simp
  from s cf have Q: "Q = mat_negate Q0" and z: "z = map (\<lambda>i. zzz ! i - zzz ! (n + i)) [0..<n]"
    by (simp_all add: dQ)
  show "nrows Q = ncols R" "ncols Q = ncols R"
    by (simp_all add: Q Q0 mat_negate_def)
  show "elem Q = (\<lambda>a b. - (\<Sum>l\<leftarrow>[0..<nrows R]. elem R l a * elem R l b))"
    by (simp add: Q Q0 mat_negate_def)
  show "length z = ncols R" by (simp add: z cR)
  show "nrows R = length jstar"
    using c0 by (auto simp: mat_transpose_mult_vec_def split: if_splits)
qed

lemma exact_null_columns:
  fixes R Q U V :: "real mat"
  assumes nQ: "nrows Q = ncols R" "ncols Q = ncols R"
    and eQ: "elem Q = (\<lambda>a b. - (\<Sum>l\<leftarrow>[0..<nrows R]. elem R l a * elem R l b))"
    and col: "\<forall>i<nrows Q. (\<Sum>j\<leftarrow>[0..<ncols Q]. elem Q i j * elem V j k) = elem U i k * s"
    and s: "s = 0"
  shows "\<forall>i<nrows R. (\<Sum>j\<leftarrow>[0..<ncols R]. elem R i j * elem V j k) = 0"
proof -
  have "(\<Sum>b = 0..<ncols R. (\<Sum>l = 0..<nrows R. elem R l a * elem R l b) * elem V b k) = 0"
    if a: "a < ncols R" for a
  proof -
    from col a nQ s have "(\<Sum>j\<leftarrow>[0..<ncols R]. elem Q a j * elem V j k) = 0" by simp
    then have "(\<Sum>j = 0..<ncols R. - ((\<Sum>l = 0..<nrows R. elem R l a * elem R l j) * elem V j k)) = 0"
      by (simp add: sum_list_upt_conv eQ)
    then show ?thesis by (simp add: sum_negf)
  qed
  then have "\<forall>a<ncols R. (\<Sum>b = 0..<ncols R.
               (\<Sum>l = 0..<nrows R. elem R l a * elem R l b) * elem V b k) = 0"
    by blast
  from gram_null[OF this] show ?thesis by (simp add: sum_list_upt_conv)
qed

lemma fe_stage2_error_norm:
  assumes s2: "fe_stage2 lemke svd R Q c z jstar nc ne = Inr (z', ne')"
  shows "(z' = z \<and> ne' = ne) \<or> residual R z' jstar = Inr ne'"
  using s2 unfolding fe_stage2_def Let_def residual_def
  by (auto simp: ebind_eq_Inr vec_minus_def split: prod.splits if_splits)

lemmas stiff_defs = stiff_lemke_def stiff_svd_def stiff_N_def stiff_D_def stiff_v_def

lemma sqrt_hundred: "sqrt 100 = 10"
  by (rule real_sqrt_unique) simp_all

lemma stiff_lemke_ok: "lcp_solver_ok stiff_lemke"
  unfolding lcp_solver_ok_def stiff_lemke_def
  by (auto dest: lcp_solution_length)

text \<open>
  Claim C5, as the code has it. Let the solver be sound (\<open>lcp_solver_ok\<close>), let
  Stage I succeed with the solution \<^verbatim>\<open>z\<close> and let Stage II return \<^verbatim>\<open>z'\<close>. Then the
  normal impulses of the Stage-I solution, its first \<^verbatim>\<open>nc\<close> entries, are not negative;
  the constraint matrix of Stage I has rows for these entries only. If moreover the
  decomposition factors \<^verbatim>\<open>Q\<close> (\<open>svd_factors\<close>) and the tolerance test of Stage II is
  exact (\<open>small_singular_values_zero\<close>), then both residuals are defined and the residual
  of \<^verbatim>\<open>z'\<close> is that of \<^verbatim>\<open>z\<close>, hence no larger: \<^verbatim>\<open>Q\<close> is the negated product of the
  transpose of \<^verbatim>\<open>R\<close> with \<^verbatim>\<open>R\<close>, so the columns of \<^verbatim>\<open>V\<close> with singular value zero, from
  which Stage II takes its step, are null vectors of \<^verbatim>\<open>R\<close>. Without the exactness of
  the test the residual can grow. In every case the error norm that Stage II returns is
  the residual of \<^verbatim>\<open>z'\<close>, unless Stage II leaves \<^verbatim>\<open>z\<close> and the norm as they were.
\<close>

theorem stages_sign_and_residual:
  assumes ok: "lcp_solver_ok lemke"
    and s1: "fe_stage1 lemke N D jstar nc ngc nk = Inr (R, Q, c, z, True)"
    and s2: "fe_stage2 lemke svd R Q c z jstar nc ne = Inr (z', ne')"
    and fac: "svd_factors svd Q"
    and zero: "small_singular_values_zero svd Q"
  shows "(\<forall>i<nc. 0 \<le> z ! i)
       \<and> ((z' = z \<and> ne' = ne) \<or> residual R z' jstar = Inr ne')
       \<and> (\<exists>\<rho>. residual R z jstar = Inr \<rho> \<and> residual R z' jstar = Inr \<rho>)"
proof -
  note sh = stage1_shape[OF ok s1]
  obtain U S V where sv: "svd Q = (U, S, V)" by (cases "svd Q") auto
  from fac sv have ls: "length S = ncols V"
    and col: "\<forall>k<ncols V. \<forall>i<nrows Q.
                (\<Sum>j\<leftarrow>[0..<ncols Q]. elem Q i j * elem V j k) = elem U i k * S ! k"
    by (auto simp: svd_factors_def list_all_iff)
  from zero sv have ex: "\<forall>k<length S. S ! k > dbl_epsilon * real (nrows Q) * S ! 0 \<or> S ! k = 0"
    by (auto simp: small_singular_values_zero_def list_all_iff)
  have null: "\<forall>k<ncols V. \<not> S ! k > dbl_epsilon * real (nrows Q) * S ! 0 \<longrightarrow>
                 (\<forall>i<nrows R. (\<Sum>j\<leftarrow>[0..<ncols R]. elem R i j * elem V j k) = 0)"
  proof -
    have "\<forall>i<nrows R. (\<Sum>j\<leftarrow>[0..<ncols R]. elem R i j * elem V j k) = 0"
      if k: "k < ncols V" and small: "\<not> S ! k > dbl_epsilon * real (nrows Q) * S ! 0" for k
    proof -
      from ex k ls small have s0: "S ! k = 0" by auto
      from col k
      have "\<forall>i<nrows Q. (\<Sum>j\<leftarrow>[0..<ncols Q]. elem Q i j * elem V j k) = elem U i k * S ! k"
        by blast
      from exact_null_columns[OF sh(1) sh(2) sh(3) this s0] show ?thesis .
    qed
    then show ?thesis by blast
  qed
  from stage2_keeps_product[OF s2 sv ls null]
  have keep: "mat_mult_vec R z' = mat_mult_vec R z" .
  obtain Rz where Rz: "mat_mult_vec R z = Inr Rz" and lRz: "length Rz = nrows R"
    using sh(4) by (simp add: mat_mult_vec_def)
  have "vec_minus Rz jstar = Inr (map2 (-) Rz jstar)"
    using lRz sh(5) by (simp add: vec_minus_def)
  then have "residual R z jstar = Inr (vec_norm (map2 (-) Rz jstar))"
    and "residual R z' jstar = Inr (vec_norm (map2 (-) Rz jstar))"
    by (simp_all add: residual_def keep Rz)
  moreover have "\<forall>i<nc. 0 \<le> z ! i"
    using stage1_normal_nonneg[OF ok s1] by blast
  moreover note fe_stage2_error_norm[OF s2]
  ultimately show ?thesis by blast
qed

text \<open>
  The theorem on the first example: Stage I yields (1, -1, 2), Stage II moves it to
  (1, -1, 0), and both have residual 0.
\<close>

theorem stages_sign_and_residual_witness:
  "lcp_solver_ok example_lemke
   \<and> map_sum id (\<lambda>(R, Q, c, z, ok). (z, ok))
        (fe_stage1 example_lemke example_N example_D [1, - 1, 0] 1 3 4) = Inr ([1, - 1, 2], True)
   \<and> (0::real) \<le> [1, - 1, 2] ! 0
   \<and> ebind (fe_stage1 example_lemke example_N example_D [1, - 1, 0] 1 3 4) (\<lambda>(R, Q, c, z, ok).
      ebind (fe_stage2 example_lemke example_svd R Q c z [1, - 1, 0] 1 0) (\<lambda>(z', ne').
      Inr (svd_factors example_svd Q, small_singular_values_zero example_svd Q, z',
           residual R z [1, - 1, 0], residual R z' [1, - 1, 0])))
     = Inr (True, True, [1, - 1, 0], Inr 0, Inr 0)"
proof -
  have "\<exists>R Q c z' ne'.
          fe_stage1 example_lemke example_N example_D [1, - 1, 0] 1 3 4 = Inr (R, Q, c, [1, - 1, 2], True)
        \<and> fe_stage2 example_lemke example_svd R Q c [1, - 1, 2] [1, - 1, 0] 1 0 = Inr (z', ne')
        \<and> svd_factors example_svd Q \<and> small_singular_values_zero example_svd Q
        \<and> z' = [1, - 1, 0]
        \<and> residual R [1, - 1, 2] [1, - 1, 0] = Inr 0"
    by (simp add: estimator_defs estimator_example_defs svd_factors_def
        small_singular_values_zero_def residual_def)
  then obtain R Q c z' ne' where
    s1: "fe_stage1 example_lemke example_N example_D [1, - 1, 0] 1 3 4 = Inr (R, Q, c, [1, - 1, 2], True)"
    and s2: "fe_stage2 example_lemke example_svd R Q c [1, - 1, 2] [1, - 1, 0] 1 0 = Inr (z', ne')"
    and fac: "svd_factors example_svd Q" and zero: "small_singular_values_zero example_svd Q"
    and z': "z' = [1, - 1, 0]"
    and r: "residual R [1, - 1, 2] [1, - 1, 0] = Inr 0"
    by blast
  from stages_sign_and_residual[OF example_lemke_ok s1 s2 fac zero]
  have "(\<forall>i<1. (0::real) \<le> [1, - 1, 2] ! i)
        \<and> (\<exists>\<rho>. residual R [1, - 1, 2] [1, - 1, 0] = Inr \<rho> \<and> residual R z' [1, - 1, 0] = Inr \<rho>)"
    by blast
  with s1 s2 fac zero z' r example_lemke_ok show ?thesis by auto
qed

text \<open>
  Claim C5 as stated fails in both halves. On the first example both stages succeed, the
  solver's answers solve the problems it is given, and the Stage-I solution (1, -1, 2)
  has a negative tangential entry. On the second example the solver is sound as well and
  the decomposition is the singular value decomposition of \<^verbatim>\<open>Q\<close>; Stage I yields
  (1, 8, 9) with residual 0, the tolerance 12 counts the singular values 9 and 4 as zero,
  and Stage II moves the solution to (1, 10, 5), with residual 10, which is also the
  error norm that \<^verbatim>\<open>friction_estimation\<close> returns.
\<close>

theorem stages_sign_and_residual_counterexample:
  "map_sum id (\<lambda>(R, Q, c, z, ok). (z, ok))
        (fe_stage1 example_lemke example_N example_D [1, - 1, 0] 1 3 4) = Inr ([1, - 1, 2], True)
   \<and> \<not> list_all (\<lambda>x. 0 \<le> x) [1, - 1, 2 :: real]
   \<and> lcp_solver_ok stiff_lemke
   \<and> ebind (fe_stage1 stiff_lemke stiff_N stiff_D stiff_v 1 3 4) (\<lambda>(R, Q, c, z, ok).
      ebind (fe_stage2 stiff_lemke stiff_svd R Q c z stiff_v 1 0) (\<lambda>(z', ne').
      Inr (ok, svd_factors stiff_svd Q, small_singular_values_zero stiff_svd Q, z, z',
           residual R z stiff_v, residual R z' stiff_v, ne')))
     = Inr (True, True, False, [1, 8, 9], [1, 10, 5], Inr 0, Inr 10, 10)
   \<and> map_sum id (\<lambda>(ne, MU', cf', st'). (ne, cf'))
        (friction_estimation stiff_lemke stiff_svd [0, 0, 0] example_statics stiff_v []
           (1 / 100) stiff_N stiff_D example_M True example_MU []) = Inr (10, [1, 10, 5])"
proof -
  have a: "map_sum id (\<lambda>(R, Q, c, z, ok). (z, ok))
        (fe_stage1 example_lemke example_N example_D [1, - 1, 0] 1 3 4) = Inr ([1, - 1, 2], True)
   \<and> \<not> list_all (\<lambda>x. 0 \<le> x) [1, - 1, 2 :: real]"
    by (simp add: estimator_defs estimator_example_defs)
  have "\<exists>R Q c.
          fe_stage1 stiff_lemke stiff_N stiff_D stiff_v 1 3 4 = Inr (R, Q, c, [1, 8, 9], True)
        \<and> nrows Q = 3 \<and> ncols Q = 3
        \<and> map (\<lambda>i. map (elem Q i) [0..<3]) [0..<3]
            = [[- 18014398509481984, 0, 0], [0, - 9, 0], [0, 0, - 4]]
        \<and> fe_stage2 stiff_lemke stiff_svd R Q c [1, 8, 9] stiff_v 1 0 = Inr ([1, 10, 5], 10)
        \<and> residual R [1, 8, 9] stiff_v = Inr 0
        \<and> residual R [1, 10, 5] stiff_v = Inr 10"
    by (simp add: estimator_defs estimator_example_defs stiff_defs residual_def sqrt_hundred)
  then obtain R Q c where
    s1: "fe_stage1 stiff_lemke stiff_N stiff_D stiff_v 1 3 4 = Inr (R, Q, c, [1, 8, 9], True)"
    and d: "nrows Q = 3" "ncols Q = 3"
    and e: "map (\<lambda>i. map (elem Q i) [0..<3]) [0..<3]
            = [[- 18014398509481984, 0, 0], [0, - 9, 0], [0, 0, - 4]]"
    and s2: "fe_stage2 stiff_lemke stiff_svd R Q c [1, 8, 9] stiff_v 1 0 = Inr ([1, 10, 5], 10)"
    and r: "residual R [1, 8, 9] stiff_v = Inr 0" "residual R [1, 10, 5] stiff_v = Inr 10"
    by (elim exE conjE)
  have f: "svd_factors stiff_svd Q"
    using d e by (simp add: svd_factors_def stiff_svd_def mat_of_rows_def upt_eval)
  have g: "\<not> small_singular_values_zero stiff_svd Q"
    using d by (simp add: small_singular_values_zero_def stiff_svd_def dbl_epsilon_def upt_eval)
  have b: "ebind (fe_stage1 stiff_lemke stiff_N stiff_D stiff_v 1 3 4) (\<lambda>(R, Q, c, z, ok).
      ebind (fe_stage2 stiff_lemke stiff_svd R Q c z stiff_v 1 0) (\<lambda>(z', ne').
      Inr (ok, svd_factors stiff_svd Q, small_singular_values_zero stiff_svd Q, z, z',
           residual R z stiff_v, residual R z' stiff_v, ne')))
     = Inr (True, True, False, [1, 8, 9], [1, 10, 5], Inr 0, Inr 10, 10)"
    by (simp only: s1 s2 f g r ebind_Inr split_conv)
  have c: "map_sum id (\<lambda>(ne, MU', cf', st'). (ne, cf'))
        (friction_estimation stiff_lemke stiff_svd [0, 0, 0] example_statics stiff_v []
           (1 / 100) stiff_N stiff_D example_M True example_MU []) = Inr (10, [1, 10, 5])"
    by (simp add: estimator_defs estimator_example_defs stiff_defs sqrt_hundred)
  from a b c stiff_lemke_ok show ?thesis by blast
qed

end
